theory Spec2Isabelle
  imports Complex_Main "HOL-Library.AList"
begin

section \<open>Data model (src/types/salience.ts)\<close>

text \<open>
  The TypeScript interfaces become records, the string-literal unions become datatypes.
  Field names carry a short prefix per interface (\<open>s_\<close> Session, \<open>d_\<close> Direction,
  \<open>n_\<close> GenerationNode, \<open>j_\<close> GenerationJob, ...) because several interfaces share
  field names (\<open>id\<close>, \<open>status\<close>, \<open>createdAt\<close>) and \<open>id\<close> is a HOL constant.
  A \<open>number\<close> is a rational (the values the pipeline computes are exact halves), a
  depth is an integer, \<open>T | null\<close> and optional fields are \<open>T option\<close>.
\<close>

datatype SessionState =
  S_initializing | S_references_uploaded | S_analyzing | S_directions_planned
  | S_generating | S_idle | S_error

datatype SessionMode =
  M_character_design | M_assets | M_story_frames | M_evolutionary_progress | M_pm_flow

datatype NodeStatus = N_pending | N_queued | N_generating | N_complete | N_error

datatype MediaType = Image | Video

datatype ModelType = Gpt_image_1_5 | Sora_2

text \<open>
  A JavaScript \<open>Date\<close> holds one instant. It is represented by the UTC calendar fields
  of that instant, which is what \<open>toISOString\<close> prints; \<open>getTime\<close> is computed from
  them.
\<close>

record Date =
  year :: int
  month :: nat
  day :: nat
  hours :: nat
  minutes :: nat
  seconds :: nat
  milliseconds :: nat

record SalienceAxis =
  ax_name :: string
  ax_weight :: rat
  ax_value :: rat
  ax_polarities :: "string \<times> string"

record SalienceProfile =
  sp_axes :: "SalienceAxis list"
  sp_styleTags :: "string list"
  sp_avoidTags :: "string list"
  sp_compositionNotes :: "string list"
  sp_moodNotes :: "string list"
  sp_colorNotes :: "string list"
  sp_explanationShort :: string
  sp_extractedAt :: Date

record AxisDelta =
  ad_axis :: string
  ad_strength :: rat

record DirectionVector =
  dv_pushAxes :: "AxisDelta list"
  dv_pullAxes :: "AxisDelta list"
  dv_styleTags :: "string list"
  dv_avoidTags :: "string list"

record PromptSkeleton =
  ps_coreSubject :: string
  ps_sceneComposition :: string
  ps_styleAndMood :: string
  ps_constraints :: "string list"

record PromptMeta =
  pm_aspectRatio :: string
  pm_seed :: rat
  pm_styleStrength :: rat
  pm_guidance :: rat
  pm_duration :: "rat option"
  pm_fps :: "rat option"

record GenerationNode =
  n_id :: string
  n_directionId :: string
  n_depth :: int
  n_status :: NodeStatus
  n_mediaType :: MediaType
  n_model :: ModelType
  n_prompt :: "string option"
  n_promptMeta :: "PromptMeta option"
  n_negative :: "string list"
  n_explanationShort :: "string option"
  n_outputUrl :: "string option"
  n_thumbnailUrl :: "string option"
  n_progress :: rat
  n_streamingContent :: "string option"
  n_error :: "string option"
  n_isPinned :: bool
  n_parentNodeId :: "string option"
  n_salienceDelta :: "AxisDelta list"
  n_createdAt :: Date
  n_completedAt :: "Date option"

record Direction =
  d_id :: string
  d_index :: int
  d_label :: string
  d_intent :: string
  d_vector :: DirectionVector
  d_promptSkeleton :: PromptSkeleton
  d_nodes :: "GenerationNode list"
  d_createdAt :: Date

record PreferenceState =
  pr_weights :: "(string \<times> rat) list"
  pr_explorationRate :: rat
  pr_styleAffinities :: "(string \<times> rat) list"
  pr_updatedAt :: Date

record Session =
  s_id :: string
  s_mode :: SessionMode
  s_state :: SessionState
  s_referenceUrls :: "string list"
  s_caption :: string
  s_salienceProfile :: "SalienceProfile option"
  s_directions :: "Direction list"
  s_preferences :: PreferenceState
  s_createdAt :: Date
  s_updatedAt :: Date

text \<open>
  \<open>Partial<GenerationNode>\<close> and \<open>Partial<Session>\<close>: an object literal that carries
  some of the fields. It is the list of its properties; the spread
  \<open>{ ...n, ...updates }\<close> assigns them in order over a copy of \<open>n\<close>.
\<close>

datatype NodeField =
  F_id string
  | F_directionId string
  | F_depth int
  | F_status NodeStatus
  | F_mediaType MediaType
  | F_model ModelType
  | F_prompt "string option"
  | F_promptMeta "PromptMeta option"
  | F_negative "string list"
  | F_explanationShort "string option"
  | F_outputUrl "string option"
  | F_thumbnailUrl "string option"
  | F_progress rat
  | F_streamingContent "string option"
  | F_error "string option"
  | F_isPinned bool
  | F_parentNodeId "string option"
  | F_salienceDelta "AxisDelta list"
  | F_createdAt Date
  | F_completedAt "Date option"

fun assignNode :: "NodeField \<Rightarrow> GenerationNode \<Rightarrow> GenerationNode" where
  "assignNode (F_id v) n = n\<lparr>n_id := v\<rparr>"
| "assignNode (F_directionId v) n = n\<lparr>n_directionId := v\<rparr>"
| "assignNode (F_depth v) n = n\<lparr>n_depth := v\<rparr>"
| "assignNode (F_status v) n = n\<lparr>n_status := v\<rparr>"
| "assignNode (F_mediaType v) n = n\<lparr>n_mediaType := v\<rparr>"
| "assignNode (F_model v) n = n\<lparr>n_model := v\<rparr>"
| "assignNode (F_prompt v) n = n\<lparr>n_prompt := v\<rparr>"
| "assignNode (F_promptMeta v) n = n\<lparr>n_promptMeta := v\<rparr>"
| "assignNode (F_negative v) n = n\<lparr>n_negative := v\<rparr>"
| "assignNode (F_explanationShort v) n = n\<lparr>n_explanationShort := v\<rparr>"
| "assignNode (F_outputUrl v) n = n\<lparr>n_outputUrl := v\<rparr>"
| "assignNode (F_thumbnailUrl v) n = n\<lparr>n_thumbnailUrl := v\<rparr>"
| "assignNode (F_progress v) n = n\<lparr>n_progress := v\<rparr>"
| "assignNode (F_streamingContent v) n = n\<lparr>n_streamingContent := v\<rparr>"
| "assignNode (F_error v) n = n\<lparr>n_error := v\<rparr>"
| "assignNode (F_isPinned v) n = n\<lparr>n_isPinned := v\<rparr>"
| "assignNode (F_parentNodeId v) n = n\<lparr>n_parentNodeId := v\<rparr>"
| "assignNode (F_salienceDelta v) n = n\<lparr>n_salienceDelta := v\<rparr>"
| "assignNode (F_createdAt v) n = n\<lparr>n_createdAt := v\<rparr>"
| "assignNode (F_completedAt v) n = n\<lparr>n_completedAt := v\<rparr>"

definition spreadNode :: "GenerationNode \<Rightarrow> NodeField list \<Rightarrow> GenerationNode" where
  "spreadNode n updates = fold assignNode updates n"

datatype SessionField =
  G_id string
  | G_mode SessionMode
  | G_state SessionState
  | G_referenceUrls "string list"
  | G_caption string
  | G_salienceProfile "SalienceProfile option"
  | G_directions "Direction list"
  | G_preferences PreferenceState
  | G_createdAt Date
  | G_updatedAt Date

fun assignSession :: "SessionField \<Rightarrow> Session \<Rightarrow> Session" where
  "assignSession (G_id v) s = s\<lparr>s_id := v\<rparr>"
| "assignSession (G_mode v) s = s\<lparr>s_mode := v\<rparr>"
| "assignSession (G_state v) s = s\<lparr>s_state := v\<rparr>"
| "assignSession (G_referenceUrls v) s = s\<lparr>s_referenceUrls := v\<rparr>"
| "assignSession (G_caption v) s = s\<lparr>s_caption := v\<rparr>"
| "assignSession (G_salienceProfile v) s = s\<lparr>s_salienceProfile := v\<rparr>"
| "assignSession (G_directions v) s = s\<lparr>s_directions := v\<rparr>"
| "assignSession (G_preferences v) s = s\<lparr>s_preferences := v\<rparr>"
| "assignSession (G_createdAt v) s = s\<lparr>s_createdAt := v\<rparr>"
| "assignSession (G_updatedAt v) s = s\<lparr>s_updatedAt := v\<rparr>"

definition spreadSession :: "Session \<Rightarrow> SessionField list \<Rightarrow> Session" where
  "spreadSession s updates = fold assignSession updates s"

section \<open>SessionStore (src/lib/salience/store/session-store.ts)\<close>

text \<open>
  \<open>sessions\<close> is a JavaScript \<open>Map\<close> and \<open>dirty\<close> a \<open>Set\<close>; both iterate in
  insertion order, so they are an association list and a list without repetition.
  \<open>Map.set\<close> on a present key keeps the key's position (\<open>AList.update\<close>), on an absent
  key appends. Every public method first awaits \<open>ensureInitialized\<close>; the functions below
  describe the store once it is initialised, where that call returns at once. Each
  method runs to completion between two turns of the event loop (its awaits are on
  already-resolved promises), so it is one state transformer. \<open>new Date()\<close> is the
  parameter \<open>now\<close>.
\<close>

record store =
  sessions :: "(string \<times> Session) list"
  dirty :: "string list"

definition set_add :: "'a \<Rightarrow> 'a list \<Rightarrow> 'a list" where
  "set_add x xs = (if x \<in> set xs then xs else xs @ [x])"

definition set_delete :: "'a \<Rightarrow> 'a list \<Rightarrow> 'a list" where
  "set_delete x xs = removeAll x xs"

definition get :: "store \<Rightarrow> string \<Rightarrow> Session option" where
  "get st sessionId = map_of (sessions st) sessionId"

definition update :: "Date \<Rightarrow> string \<Rightarrow> SessionField list \<Rightarrow> store \<Rightarrow> Session option \<times> store" where
  "update now sessionId updates st =
     (case map_of (sessions st) sessionId of
        None \<Rightarrow> (None, st)
      | Some session \<Rightarrow>
          let updated = (spreadSession session updates)\<lparr>s_updatedAt := now\<rparr>
          in (Some updated,
              st\<lparr>sessions := AList.update sessionId updated (sessions st),
                 dirty := set_add sessionId (dirty st)\<rparr>))"

text \<open>
  The files of \<open>DATA_DIR\<close>, by file name. \<open>unlink\<close> rejects when the file is missing
  (\<open>ENOENT\<close>); \<open>delete\<close> catches that and everything else the call may throw.
\<close>

datatype fs_error = ENOENT | EIO

definition unlink :: "string \<Rightarrow> (string \<times> 'c) list \<Rightarrow> fs_error + (string \<times> 'c) list" where
  "unlink filePath files =
     (if filePath \<in> fst ` set files then Inr (AList.delete filePath files) else Inl ENOENT)"

definition delete :: "string \<Rightarrow> store \<times> (string \<times> 'c) list \<Rightarrow> bool \<times> store \<times> (string \<times> 'c) list" where
  "delete sessionId w =
     (let st = fst w; files = snd w in
      if map_of (sessions st) sessionId = None then (False, st, files)
      else
        let st' = st\<lparr>sessions := AList.delete sessionId (sessions st),
                      dirty := set_delete sessionId (dirty st)\<rparr>
        in (case unlink (sessionId @ ''.json'') files of
              Inr files' \<Rightarrow> (True, st', files')
            | Inl err \<Rightarrow> (True, st', files)))"

text \<open>
  \<open>getTime\<close>: milliseconds since the epoch of the instant the fields denote (the days
  of the proleptic Gregorian calendar, as ECMAScript's \<open>MakeDay\<close> counts them).
\<close>

definition daysFromCivil :: "int \<Rightarrow> int \<Rightarrow> int \<Rightarrow> int" where
  "daysFromCivil y m d =
     (let y' = (if m \<le> 2 then y - 1 else y);
          era = y' div 400;
          yoe = y' - era * 400;
          doy = (153 * (if m > 2 then m - 3 else m + 9) + 2) div 5 + d - 1;
          doe = yoe * 365 + yoe div 4 - yoe div 100 + doy
      in era * 146097 + doe - 719468)"

definition getTime :: "Date \<Rightarrow> int" where
  "getTime t =
     (((daysFromCivil (year t) (int (month t)) (int (day t)) * 24 + int (hours t)) * 60
        + int (minutes t)) * 60 + int (seconds t)) * 1000 + int (milliseconds t)"

text \<open>
  \<open>list\<close>: \<open>Array.prototype.sort\<close> is stable, the comparator orders by \<open>createdAt\<close>,
  newest first.
\<close>

definition list_sessions :: "store \<Rightarrow> Session list" where
  "list_sessions st = sort_key (\<lambda>s. - getTime (s_createdAt s)) (map snd (sessions st))"

definition setState :: "Date \<Rightarrow> string \<Rightarrow> SessionState \<Rightarrow> store \<Rightarrow> Session option \<times> store" where
  "setState now sessionId state st = update now sessionId [G_state state] st"

definition setReferences :: "Date \<Rightarrow> string \<Rightarrow> string list \<Rightarrow> store \<Rightarrow> Session option \<times> store" where
  "setReferences now sessionId urls st =
     (case get st sessionId of
        None \<Rightarrow> (None, st)
      | Some session \<Rightarrow>
          update now sessionId
            [G_referenceUrls urls,
             G_state (if length urls > 0 then S_references_uploaded else s_state session)] st)"

definition addNode :: "Date \<Rightarrow> string \<Rightarrow> string \<Rightarrow> GenerationNode \<Rightarrow> store \<Rightarrow> Session option \<times> store" where
  "addNode now sessionId directionId node st =
     (case get st sessionId of
        None \<Rightarrow> (None, st)
      | Some session \<Rightarrow>
          let directions =
                map (\<lambda>d. if d_id d = directionId then d\<lparr>d_nodes := d_nodes d @ [node]\<rparr> else d)
                  (s_directions session)
          in update now sessionId [G_directions directions] st)"

definition updateNode :: "Date \<Rightarrow> string \<Rightarrow> string \<Rightarrow> NodeField list \<Rightarrow> store \<Rightarrow> Session option \<times> store" where
  "updateNode now sessionId nodeId updates st =
     (case get st sessionId of
        None \<Rightarrow> (None, st)
      | Some session \<Rightarrow>
          let directions =
                map (\<lambda>d. d\<lparr>d_nodes :=
                            map (\<lambda>n. if n_id n = nodeId then spreadNode n updates else n) (d_nodes d)\<rparr>)
                  (s_directions session)
          in update now sessionId [G_directions directions] st)"

fun findNode :: "Direction list \<Rightarrow> string \<Rightarrow> GenerationNode option" where
  "findNode [] nodeId = None"
| "findNode (direction # rest) nodeId =
     (case find (\<lambda>n. n_id n = nodeId) (d_nodes direction) of
        Some node \<Rightarrow> Some node
      | None \<Rightarrow> findNode rest nodeId)"

definition getNode :: "store \<Rightarrow> string \<Rightarrow> string \<Rightarrow> GenerationNode option" where
  "getNode st sessionId nodeId =
     (case get st sessionId of
        None \<Rightarrow> None
      | Some session \<Rightarrow> findNode (s_directions session) nodeId)"

definition getDirection :: "store \<Rightarrow> string \<Rightarrow> string \<Rightarrow> Direction option" where
  "getDirection st sessionId directionId =
     (case get st sessionId of
        None \<Rightarrow> None
      | Some session \<Rightarrow> find (\<lambda>d. d_id d = directionId) (s_directions session))"

section \<open>Persistence: JSON documents, the reviver, flushDirty and loadAll\<close>

text \<open>
  A JavaScript \<open>number\<close>: a finite number other than negative zero (\<open>Num 0\<close> is
  \<open>+0\<close>), negative zero, \<open>NaN\<close>, or one of the two infinities. A field declared
  \<open>number\<close> can hold any of them at run time; the generate route, for one, stores the
  \<open>depth\<close> of the request body as it was parsed.
\<close>

datatype number = Num rat | NegZero | NaN | PosInfinity | NegInfinity

text \<open>
  A JavaScript value as the store holds it in memory (\<open>jsval\<close>, with \<open>Date\<close> objects;
  \<open>VDate None\<close> is an invalid Date) and a JSON document as a file holds it (\<open>json\<close>,
  which has no dates, and whose numbers are the finite ones \<open>JSON.stringify\<close> prints).
  \<open>JSON.stringify\<close> and \<open>JSON.parse\<close> are modelled on the trees: the text between them
  is the engine's own and parses back to the tree it was printed from.
\<close>

datatype jsval =
  VNull | VBool bool | VNum number | VStr string | VDate "Date option"
  | VArr "jsval list" | VObj "(string \<times> jsval) list"

datatype json =
  JNull | JBool bool | JNum rat | JStr string | JArr "json list" | JObj "(string \<times> json) list"

definition digit :: "nat \<Rightarrow> char" where
  "digit d = char_of (48 + d mod 10)"

fun pad :: "nat \<Rightarrow> nat \<Rightarrow> string" where
  "pad 0 n = []"
| "pad (Suc w) n = pad w (n div 10) @ [digit n]"

text \<open>
  \<open>Date.prototype.toISOString\<close>: \<open>YYYY-MM-DDTHH:mm:ss.sssZ\<close>, and the expanded form
  with a sign and six digits for a year outside 0..9999.
\<close>

definition toISOString :: "Date \<Rightarrow> string" where
  "toISOString t =
     (if 0 \<le> year t \<and> year t \<le> 9999 then pad 4 (nat (year t))
      else (if year t < 0 then ''-'' else ''+'') @ pad 6 (nat \<bar>year t\<bar>))
     @ ''-'' @ pad 2 (month t) @ ''-'' @ pad 2 (day t)
     @ ''T'' @ pad 2 (hours t) @ '':'' @ pad 2 (minutes t) @ '':'' @ pad 2 (seconds t)
     @ ''.'' @ pad 3 (milliseconds t) @ ''Z''"

text \<open>
  \<open>JSON.stringify\<close>: a Date is written through \<open>toJSON\<close>, an invalid one as null;
  \<open>NaN\<close> and the infinities are written as null, negative zero as \<open>0\<close>.
\<close>

primrec JSON_stringify :: "jsval \<Rightarrow> json" where
  "JSON_stringify VNull = JNull"
| "JSON_stringify (VBool b) = JBool b"
| "JSON_stringify (VNum n) =
     (case n of
        Num r \<Rightarrow> JNum r
      | NegZero \<Rightarrow> JNum 0
      | NaN \<Rightarrow> JNull
      | PosInfinity \<Rightarrow> JNull
      | NegInfinity \<Rightarrow> JNull)"
| "JSON_stringify (VStr s) = JStr s"
| "JSON_stringify (VDate d) = (case d of None \<Rightarrow> JNull | Some t \<Rightarrow> JStr (toISOString t))"
| "JSON_stringify (VArr xs) = JArr (map JSON_stringify xs)"
| "JSON_stringify (VObj ms) = JObj (map (map_prod id JSON_stringify) ms)"

text \<open>
  The reviver's regular expression \<open>/^\d{4}-\d{2}-\d{2}T\d{2}:\d{2}:\d{2}/\<close>: a list
  of character classes matched against the start of the string.
\<close>

datatype cls = Digit | Lit char

definition isDigit :: "char \<Rightarrow> bool" where
  "isDigit c = (48 \<le> (of_char c :: nat) \<and> (of_char c :: nat) \<le> 57)"

fun matchesPrefix :: "cls list \<Rightarrow> string \<Rightarrow> bool" where
  "matchesPrefix [] s = True"
| "matchesPrefix (c # cs) [] = False"
| "matchesPrefix (Digit # cs) (x # xs) = (isDigit x \<and> matchesPrefix cs xs)"
| "matchesPrefix (Lit l # cs) (x # xs) = (x = l \<and> matchesPrefix cs xs)"

definition isoPattern :: "cls list" where
  "isoPattern =
     [Digit, Digit, Digit, Digit, Lit CHR ''-'', Digit, Digit, Lit CHR ''-'', Digit, Digit,
      Lit CHR ''T'', Digit, Digit, Lit CHR '':'', Digit, Digit, Lit CHR '':'', Digit, Digit]"

definition isoFull :: "cls list" where
  "isoFull = isoPattern @ [Lit CHR ''.'', Digit, Digit, Digit, Lit CHR ''Z'']"

definition digitVal :: "char \<Rightarrow> nat option" where
  "digitVal c = (if isDigit c then Some (of_char c - 48) else None)"

definition readNat :: "string \<Rightarrow> nat option" where
  "readNat s =
     foldl (\<lambda>acc c. case (acc, digitVal c) of (Some a, Some d) \<Rightarrow> Some (10 * a + d) | _ \<Rightarrow> None)
       (Some 0) s"

definition isLeapYear :: "int \<Rightarrow> bool" where
  "isLeapYear y = (y mod 4 = 0 \<and> (y mod 100 \<noteq> 0 \<or> y mod 400 = 0))"

definition daysInMonth :: "int \<Rightarrow> nat \<Rightarrow> nat" where
  "daysInMonth y m =
     (if m = 2 then (if isLeapYear y then 29 else 28)
      else if m \<in> {4, 6, 9, 11} then 30 else 31)"

text \<open>The field tuples that denote an instant (what \<open>new Date()\<close> can return).\<close>

definition validDate :: "Date \<Rightarrow> bool" where
  "validDate t =
     (1 \<le> month t \<and> month t \<le> 12 \<and> 1 \<le> day t \<and> day t \<le> daysInMonth (year t) (month t)
      \<and> hours t < 24 \<and> minutes t < 60 \<and> seconds t < 60 \<and> milliseconds t < 1000)"

text \<open>
  \<open>new Date(value)\<close> on a string. The one format modelled is the one the store writes,
  \<open>toISOString\<close>'s 24 characters; there the result is the instant the fields denote.
  For any other string the model gives \<open>None\<close>, which then stands for whatever Date the
  engine builds (an invalid Date, or the result of its fallback parser).
\<close>

definition newDate :: "string \<Rightarrow> Date option" where
  "newDate s =
     (if length s = 24 \<and> matchesPrefix isoFull s then
        (case (readNat (take 4 s), readNat (take 2 (drop 5 s)), readNat (take 2 (drop 8 s)),
               readNat (take 2 (drop 11 s)), readNat (take 2 (drop 14 s)),
               readNat (take 2 (drop 17 s)), readNat (take 3 (drop 20 s))) of
           (Some y, Some mo, Some d, Some h, Some mi, Some se, Some ms) \<Rightarrow>
              (let t = \<lparr>year = int y, month = mo, day = d, hours = h, minutes = mi,
                        seconds = se, milliseconds = ms\<rparr>
               in if validDate t then Some t else None)
         | _ \<Rightarrow> None)
      else None)"

text \<open>
  \<open>SessionStore.reviver\<close> (the key argument is not used by the source, and is left
  out) and \<open>JSON.parse(content, this.reviver)\<close>, which calls the reviver on every value of
  the document, children first.
\<close>

definition reviver :: "jsval \<Rightarrow> jsval" where
  "reviver v =
     (case v of
        VStr s \<Rightarrow> if matchesPrefix isoPattern s then VDate (newDate s) else v
      | _ \<Rightarrow> v)"

primrec JSON_parse :: "json \<Rightarrow> jsval" where
  "JSON_parse JNull = reviver VNull"
| "JSON_parse (JBool b) = reviver (VBool b)"
| "JSON_parse (JNum r) = reviver (VNum (Num r))"
| "JSON_parse (JStr s) = reviver (VStr s)"
| "JSON_parse (JArr xs) = reviver (VArr (map JSON_parse xs))"
| "JSON_parse (JObj ms) = reviver (VObj (map (map_prod id JSON_parse) ms))"

fun stringsOf :: "jsval \<Rightarrow> string list" where
  "stringsOf (VStr s) = [s]"
| "stringsOf (VArr xs) = concat (map stringsOf xs)"
| "stringsOf (VObj ms) = concat (map (\<lambda>kv. stringsOf (snd kv)) ms)"
| "stringsOf _ = []"

fun numbersOf :: "jsval \<Rightarrow> number list" where
  "numbersOf (VNum n) = [n]"
| "numbersOf (VArr xs) = concat (map numbersOf xs)"
| "numbersOf (VObj ms) = concat (map (\<lambda>kv. numbersOf (snd kv)) ms)"
| "numbersOf _ = []"

fun datesOf :: "jsval \<Rightarrow> Date option list" where
  "datesOf (VDate d) = [d]"
| "datesOf (VArr xs) = concat (map datesOf xs)"
| "datesOf (VObj ms) = concat (map (\<lambda>kv. datesOf (snd kv)) ms)"
| "datesOf _ = []"

subsection \<open>A Session as the JavaScript value the store holds\<close>

text \<open>
  The value of a session whose fields hold what their declared types say, with the
  numbers of the records (\<open>js_number\<close>).
\<close>

definition js_number :: "rat \<Rightarrow> jsval" where
  "js_number r = VNum (Num r)"

fun str_of_SessionState :: "SessionState \<Rightarrow> string" where
  "str_of_SessionState S_initializing = ''initializing''"
| "str_of_SessionState S_references_uploaded = ''references_uploaded''"
| "str_of_SessionState S_analyzing = ''analyzing''"
| "str_of_SessionState S_directions_planned = ''directions_planned''"
| "str_of_SessionState S_generating = ''generating''"
| "str_of_SessionState S_idle = ''idle''"
| "str_of_SessionState S_error = ''error''"

fun str_of_SessionMode :: "SessionMode \<Rightarrow> string" where
  "str_of_SessionMode M_character_design = ''character_design''"
| "str_of_SessionMode M_assets = ''assets''"
| "str_of_SessionMode M_story_frames = ''story_frames''"
| "str_of_SessionMode M_evolutionary_progress = ''evolutionary_progress''"
| "str_of_SessionMode M_pm_flow = ''pm_flow''"

fun str_of_NodeStatus :: "NodeStatus \<Rightarrow> string" where
  "str_of_NodeStatus N_pending = ''pending''"
| "str_of_NodeStatus N_queued = ''queued''"
| "str_of_NodeStatus N_generating = ''generating''"
| "str_of_NodeStatus N_complete = ''complete''"
| "str_of_NodeStatus N_error = ''error''"

fun str_of_MediaType :: "MediaType \<Rightarrow> string" where
  "str_of_MediaType Image = ''image''"
| "str_of_MediaType Video = ''video''"

fun str_of_ModelType :: "ModelType \<Rightarrow> string" where
  "str_of_ModelType Gpt_image_1_5 = ''gpt-image-1.5-2025-12-16''"
| "str_of_ModelType Sora_2 = ''sora-2-2025-10-06''"

definition js_nullable :: "('a \<Rightarrow> jsval) \<Rightarrow> 'a option \<Rightarrow> jsval" where
  "js_nullable f x = (case x of None \<Rightarrow> VNull | Some v \<Rightarrow> f v)"

text \<open>
  An optional member (\<open>duration?: number\<close>). A member that is absent and a member whose
  value is \<open>undefined\<close> read the same and are one value here, \<open>None\<close>;
  \<open>JSON.stringify\<close> leaves out both.
\<close>

definition js_optional :: "string \<Rightarrow> ('a \<Rightarrow> jsval) \<Rightarrow> 'a option \<Rightarrow> (string \<times> jsval) list" where
  "js_optional key f x = (case x of None \<Rightarrow> [] | Some v \<Rightarrow> [(key, f v)])"

definition js_strings :: "string list \<Rightarrow> jsval" where
  "js_strings xs = VArr (map VStr xs)"

definition js_record :: "(string \<times> rat) list \<Rightarrow> jsval" where
  "js_record kvs = VObj (map (\<lambda>kv. (fst kv, js_number (snd kv))) kvs)"

definition js_of_Date :: "Date \<Rightarrow> jsval" where
  "js_of_Date t = VDate (Some t)"

definition js_of_AxisDelta :: "AxisDelta \<Rightarrow> jsval" where
  "js_of_AxisDelta a = VObj [(''axis'', VStr (ad_axis a)), (''strength'', js_number (ad_strength a))]"

definition js_of_SalienceAxis :: "SalienceAxis \<Rightarrow> jsval" where
  "js_of_SalienceAxis a =
     VObj [(''name'', VStr (ax_name a)), (''weight'', js_number (ax_weight a)),
           (''value'', js_number (ax_value a)),
           (''polarities'', VArr [VStr (fst (ax_polarities a)), VStr (snd (ax_polarities a))])]"

definition js_of_SalienceProfile :: "SalienceProfile \<Rightarrow> jsval" where
  "js_of_SalienceProfile p =
     VObj [(''axes'', VArr (map js_of_SalienceAxis (sp_axes p))),
           (''styleTags'', js_strings (sp_styleTags p)),
           (''avoidTags'', js_strings (sp_avoidTags p)),
           (''compositionNotes'', js_strings (sp_compositionNotes p)),
           (''moodNotes'', js_strings (sp_moodNotes p)),
           (''colorNotes'', js_strings (sp_colorNotes p)),
           (''explanationShort'', VStr (sp_explanationShort p)),
           (''extractedAt'', js_of_Date (sp_extractedAt p))]"

definition js_of_DirectionVector :: "DirectionVector \<Rightarrow> jsval" where
  "js_of_DirectionVector v =
     VObj [(''pushAxes'', VArr (map js_of_AxisDelta (dv_pushAxes v))),
           (''pullAxes'', VArr (map js_of_AxisDelta (dv_pullAxes v))),
           (''styleTags'', js_strings (dv_styleTags v)),
           (''avoidTags'', js_strings (dv_avoidTags v))]"

definition js_of_PromptSkeleton :: "PromptSkeleton \<Rightarrow> jsval" where
  "js_of_PromptSkeleton k =
     VObj [(''coreSubject'', VStr (ps_coreSubject k)),
           (''sceneComposition'', VStr (ps_sceneComposition k)),
           (''styleAndMood'', VStr (ps_styleAndMood k)),
           (''constraints'', js_strings (ps_constraints k))]"

definition js_of_PromptMeta :: "PromptMeta \<Rightarrow> jsval" where
  "js_of_PromptMeta m =
     VObj ([(''aspectRatio'', VStr (pm_aspectRatio m)), (''seed'', js_number (pm_seed m)),
            (''styleStrength'', js_number (pm_styleStrength m)),
            (''guidance'', js_number (pm_guidance m))]
           @ js_optional ''duration'' js_number (pm_duration m)
           @ js_optional ''fps'' js_number (pm_fps m))"

definition js_of_GenerationNode :: "GenerationNode \<Rightarrow> jsval" where
  "js_of_GenerationNode n =
     VObj ([(''id'', VStr (n_id n)), (''directionId'', VStr (n_directionId n)),
            (''depth'', js_number (of_int (n_depth n))),
            (''status'', VStr (str_of_NodeStatus (n_status n))),
            (''mediaType'', VStr (str_of_MediaType (n_mediaType n))),
            (''model'', VStr (str_of_ModelType (n_model n))),
            (''prompt'', js_nullable VStr (n_prompt n)),
            (''promptMeta'', js_nullable js_of_PromptMeta (n_promptMeta n)),
            (''negative'', js_strings (n_negative n)),
            (''explanationShort'', js_nullable VStr (n_explanationShort n)),
            (''outputUrl'', js_nullable VStr (n_outputUrl n)),
            (''thumbnailUrl'', js_nullable VStr (n_thumbnailUrl n)),
            (''progress'', js_number (n_progress n))]
           @ js_optional ''streamingContent'' VStr (n_streamingContent n)
           @ [(''error'', js_nullable VStr (n_error n)),
              (''isPinned'', VBool (n_isPinned n)),
              (''parentNodeId'', js_nullable VStr (n_parentNodeId n)),
              (''salienceDelta'', VArr (map js_of_AxisDelta (n_salienceDelta n))),
              (''createdAt'', js_of_Date (n_createdAt n)),
              (''completedAt'', js_nullable js_of_Date (n_completedAt n))])"

definition js_of_Direction :: "Direction \<Rightarrow> jsval" where
  "js_of_Direction d =
     VObj [(''id'', VStr (d_id d)), (''index'', js_number (of_int (d_index d))),
           (''label'', VStr (d_label d)), (''intent'', VStr (d_intent d)),
           (''vector'', js_of_DirectionVector (d_vector d)),
           (''promptSkeleton'', js_of_PromptSkeleton (d_promptSkeleton d)),
           (''nodes'', VArr (map js_of_GenerationNode (d_nodes d))),
           (''createdAt'', js_of_Date (d_createdAt d))]"

definition js_of_PreferenceState :: "PreferenceState \<Rightarrow> jsval" where
  "js_of_PreferenceState p =
     VObj [(''weights'', js_record (pr_weights p)),
           (''explorationRate'', js_number (pr_explorationRate p)),
           (''styleAffinities'', js_record (pr_styleAffinities p)),
           (''updatedAt'', js_of_Date (pr_updatedAt p))]"

definition js_of_Session :: "Session \<Rightarrow> jsval" where
  "js_of_Session s =
     VObj [(''id'', VStr (s_id s)), (''mode'', VStr (str_of_SessionMode (s_mode s))),
           (''state'', VStr (str_of_SessionState (s_state s))),
           (''referenceUrls'', js_strings (s_referenceUrls s)),
           (''caption'', VStr (s_caption s)),
           (''salienceProfile'', js_nullable js_of_SalienceProfile (s_salienceProfile s)),
           (''directions'', VArr (map js_of_Direction (s_directions s))),
           (''preferences'', js_of_PreferenceState (s_preferences s)),
           (''createdAt'', js_of_Date (s_createdAt s)),
           (''updatedAt'', js_of_Date (s_updatedAt s))]"

subsection \<open>flushDirty and loadAll\<close>

text \<open>
  \<open>files\<close> are the documents of \<open>DATA_DIR\<close> by file name. \<open>writeOk\<close> tells for each
  path whether \<open>writeFile\<close> resolves in this flush, \<open>mkdirOk\<close> whether \<open>mkdir\<close> does.
  A rejected \<open>mkdir\<close> rejects \<open>flushDirty\<close> before the dirty set is touched (the
  interval callback logs it).
\<close>

fun flushLoop :: "(string \<Rightarrow> bool) \<Rightarrow> string list \<Rightarrow> store \<times> (string \<times> json) list
    \<Rightarrow> store \<times> (string \<times> json) list" where
  "flushLoop writeOk [] w = w"
| "flushLoop writeOk (sessionId # rest) w =
     flushLoop writeOk rest
       (case map_of (sessions (fst w)) sessionId of
          None \<Rightarrow> w
        | Some session \<Rightarrow>
            let filePath = sessionId @ ''.json'' in
            if writeOk filePath
            then (fst w, AList.update filePath (JSON_stringify (js_of_Session session)) (snd w))
            else ((fst w)\<lparr>dirty := set_add sessionId (dirty (fst w))\<rparr>, snd w))"

definition flushDirty :: "bool \<Rightarrow> (string \<Rightarrow> bool) \<Rightarrow> store \<times> (string \<times> json) list
    \<Rightarrow> fs_error + store \<times> (string \<times> json) list" where
  "flushDirty mkdirOk writeOk w =
     (if length (dirty (fst w)) = 0 then Inr w
      else if \<not> mkdirOk then Inl EIO
      else
        let toFlush = dirty (fst w);
            cleared = (fst w)\<lparr>dirty := []\<rparr>
        in Inr (flushLoop writeOk toFlush (cleared, snd w)))"

definition endsWith :: "string \<Rightarrow> string \<Rightarrow> bool" where
  "endsWith s suffix = (length suffix \<le> length s \<and> drop (length s - length suffix) s = suffix)"

text \<open>
  \<open>loadAll\<close> in a fresh process: every \<open>.json\<close> file is parsed with the reviver and
  stored under the \<open>id\<close> of the value read. A value without a string \<open>id\<close> is skipped
  here (reading \<open>id\<close> of null throws and is caught in the source; no file the store writes
  has another kind of \<open>id\<close>).
\<close>

definition idOf :: "jsval \<Rightarrow> string option" where
  "idOf v =
     (case v of
        VObj ms \<Rightarrow> (case map_of ms ''id'' of Some (VStr k) \<Rightarrow> Some k | _ \<Rightarrow> None)
      | _ \<Rightarrow> None)"

definition loadAll :: "(string \<times> json) list \<Rightarrow> (string \<times> jsval) list" where
  "loadAll files =
     fold (\<lambda>file loaded.
             if endsWith (fst file) ''.json''
             then (let session = JSON_parse (snd file) in
                   case idOf session of
                     Some k \<Rightarrow> AList.update k session loaded
                   | None \<Rightarrow> loaded)
             else loaded)
       files []"

section \<open>Events (src/lib/salience/events.ts)\<close>

datatype StreamEventType =
  Ev_session_update | Ev_salience_extracted | Ev_directions_planned | Ev_job_queued
  | Ev_generation_progress | Ev_generation_complete | Ev_node_created | Ev_error | Ev_heartbeat

datatype Stage = St_queued | St_composing | St_gating | St_generating | St_saving

datatype Payload =
  P_progress string string rat Stage string
  | P_complete string string string "string option" string
  | P_error "string option" string
  | P_node_created string string int

record StreamEvent =
  e_type :: StreamEventType
  e_sessionId :: string
  e_timestamp :: Date
  e_payload :: Payload

section \<open>Generation pipeline (src/lib/salience/pipeline.ts)\<close>

datatype JobStatus = J_queued | J_processing | J_completed | J_failed

record GenerationJob =
  j_id :: string
  j_sessionId :: string
  j_directionId :: string
  j_nodeId :: string
  j_parentNodeId :: "string option"
  j_mediaType :: MediaType
  j_depth :: int
  j_status :: JobStatus
  j_error :: "string option"

record PromptPackage =
  pp_modelTarget :: ModelType
  pp_prompt :: string
  pp_negative :: "string list"
  pp_params :: PromptMeta
  pp_explanationShort :: string
  pp_salienceDelta :: "AxisDelta list"
  pp_needsRevision :: bool
  pp_issues :: "string list"

record GatedPackage = PromptPackage +
  gp_approved :: bool
  gp_revised :: bool
  gp_gateIssues :: "string list"

text \<open>
  The interval a call of \<open>startProgressTicker\<close> creates: the closure's variables and
  whether \<open>clearInterval\<close> has been called on it.
\<close>

record Ticker =
  t_sessionId :: string
  t_nodeId :: string
  t_directionId :: string
  t_currentProgress :: rat
  t_endProgress :: rat
  t_step :: rat
  t_cleared :: bool

text \<open>
  \<open>processQueue\<close>, \<open>processJob\<close>, \<open>generateImage\<close> and \<open>generateVideo\<close> are async
  functions. Between two awaits on the outside world (the composer, the gate, the file
  system, the image and video services, the poll timer) the code runs without
  interruption: the awaits on the store resolve in the same turn of the event loop. An
  invocation of \<open>processQueue\<close> that is suspended inside \<open>processJob\<close> is a \<open>Loop\<close>:
  the job it holds and the await it is waiting at, with the local variables that are
  still needed.
\<close>

datatype pc =
  AwaitCompose
  | AwaitGate
  | AwaitImgMkdir GatedPackage nat
  | AwaitImgApi GatedPackage nat
  | AwaitImgWrite GatedPackage nat
  | AwaitVidMkdir GatedPackage nat
  | AwaitVidCreate GatedPackage nat
  | AwaitVidSleep GatedPackage nat nat
  | AwaitVidStatus GatedPackage nat nat
  | AwaitVidDownload GatedPackage nat
  | AwaitVidWrite GatedPackage nat

record Loop =
  l_job :: GenerationJob
  l_pc :: pc

text \<open>
  The module state of pipeline.ts (\<open>jobQueue\<close>, \<open>isProcessing\<close>), the store singleton,
  the intervals, the suspended loops, and the event emitters of events.ts:
  \<open>errorListeners\<close> are the sessions whose emitter has a listener for the event name
  \<open>error\<close>, and \<open>streamed\<close> are the events handed to the wildcard name \<open>*\<close>, which is
  what the streaming route forwards. \<open>finished\<close> keeps the job objects the loop is done
  with.
\<close>

record app =
  sessionStore :: store
  jobQueue :: "GenerationJob list"
  isProcessing :: bool
  loops :: "Loop list"
  finished :: "GenerationJob list"
  tickers :: "Ticker list"
  streamed :: "StreamEvent list"
  errorListeners :: "string list"
  OPENAI_API_KEY :: "string option"

text \<open>
  \<open>emitSessionEvent\<close> calls \<open>emitter.emit(type, event)\<close> and then
  \<open>emitter.emit('*', event)\<close>. The emitter is Node's \<open>EventEmitter\<close>, for which the
  event name \<open>error\<close> is special: emitting it on an emitter that has no listener for
  \<open>error\<close> throws. The first component of the result is the exception, if any.
\<close>

definition emitSessionEvent :: "Date \<Rightarrow> string \<Rightarrow> StreamEventType \<Rightarrow> Payload \<Rightarrow> app
    \<Rightarrow> string option \<times> app" where
  "emitSessionEvent now sessionId type payload a =
     (if type = Ev_error \<and> sessionId \<notin> set (errorListeners a)
      then (Some ''Unhandled error.'', a)
      else (None, a\<lparr>streamed := streamed a
                @ [\<lparr>e_type = type, e_sessionId = sessionId, e_timestamp = now, e_payload = payload\<rparr>]\<rparr>))"

definition emitProgress :: "Date \<Rightarrow> string \<Rightarrow> string \<Rightarrow> string \<Rightarrow> rat \<Rightarrow> Stage \<Rightarrow> string \<Rightarrow> app \<Rightarrow> app" where
  "emitProgress now sessionId nodeId directionId progress stage message a =
     snd (emitSessionEvent now sessionId Ev_generation_progress
            (P_progress nodeId directionId progress stage message) a)"

definition emitComplete :: "Date \<Rightarrow> string \<Rightarrow> string \<Rightarrow> string \<Rightarrow> string \<Rightarrow> string option \<Rightarrow> string \<Rightarrow> app \<Rightarrow> app" where
  "emitComplete now sessionId nodeId directionId outputUrl thumbnailUrl explanationShort a =
     snd (emitSessionEvent now sessionId Ev_generation_complete
            (P_complete nodeId directionId outputUrl thumbnailUrl explanationShort) a)"

definition emitError :: "Date \<Rightarrow> string \<Rightarrow> string option \<Rightarrow> string \<Rightarrow> app \<Rightarrow> string option \<times> app" where
  "emitError now sessionId nodeId error a =
     emitSessionEvent now sessionId Ev_error (P_error nodeId error) a"

definition emitNodeCreated :: "Date \<Rightarrow> string \<Rightarrow> string \<Rightarrow> string \<Rightarrow> int \<Rightarrow> app \<Rightarrow> app" where
  "emitNodeCreated now sessionId nodeId directionId depth a =
     snd (emitSessionEvent now sessionId Ev_node_created
            (P_node_created nodeId directionId depth) a)"

definition storeUpdateNode :: "Date \<Rightarrow> string \<Rightarrow> string \<Rightarrow> NodeField list \<Rightarrow> app \<Rightarrow> app" where
  "storeUpdateNode now sessionId nodeId updates a =
     a\<lparr>sessionStore := snd (updateNode now sessionId nodeId updates (sessionStore a))\<rparr>"

subsection \<open>Progress ticker\<close>

definition startProgressTicker :: "string \<Rightarrow> string \<Rightarrow> string \<Rightarrow> rat \<Rightarrow> rat \<Rightarrow> app \<Rightarrow> nat \<times> app" where
  "startProgressTicker sessionId nodeId directionId startProgress endProgress a =
     (length (tickers a),
      a\<lparr>tickers := tickers a
           @ [\<lparr>t_sessionId = sessionId, t_nodeId = nodeId, t_directionId = directionId,
                t_currentProgress = startProgress, t_endProgress = endProgress,
                t_step = (endProgress - startProgress) / 50, t_cleared = False\<rparr>]\<rparr>)"

definition stopTicker :: "nat \<Rightarrow> app \<Rightarrow> app" where
  "stopTicker k a =
     (if k < length (tickers a)
      then a\<lparr>tickers := (tickers a)[k := (tickers a ! k)\<lparr>t_cleared := True\<rparr>]\<rparr>
      else a)"

text \<open>One firing of the interval callback of ticker \<open>k\<close>.\<close>

definition tick :: "Date \<Rightarrow> nat \<Rightarrow> app \<Rightarrow> app" where
  "tick now k a =
     (if k < length (tickers a) \<and> \<not> t_cleared (tickers a ! k) then
        (let t = tickers a ! k in
         if t_currentProgress t < t_endProgress t then
           (let currentProgress = min (t_currentProgress t + t_step t) (t_endProgress t);
                a1 = a\<lparr>tickers := (tickers a)[k := t\<lparr>t_currentProgress := currentProgress\<rparr>]\<rparr>;
                a2 = storeUpdateNode now (t_sessionId t) (t_nodeId t) [F_progress currentProgress] a1
            in emitProgress now (t_sessionId t) (t_nodeId t) (t_directionId t) currentProgress
                 St_generating ''Generating...'' a2)
         else a)
      else a)"

subsection \<open>processJob, generateImage and generateVideo, from await to await\<close>

datatype outcome = Suspend pc | Returned | Thrown string

text \<open>What the awaited call delivers when it settles.\<close>

datatype reply =
  R_composed PromptPackage
  | R_gated GatedPackage
  | R_done
  | R_image "string option option"
  | R_create_ok string
  | R_create_not_ok string
  | R_status_not_ok
  | R_status_completed string
  | R_status_failed "string option"
  | R_status_other
  | R_download_ok
  | R_download_not_ok
  | R_threw string

fun join :: "string \<Rightarrow> string list \<Rightarrow> string" where
  "join sep [] = []"
| "join sep [x] = x"
| "join sep (x # y # ys) = x @ sep @ join sep (y # ys)"

definition publicUrl :: "string \<Rightarrow> string \<Rightarrow> string \<Rightarrow> string" where
  "publicUrl sessionId nodeId ext = ''/uploads/generated/'' @ sessionId @ ''/'' @ nodeId @ ext"

text \<open>
  \<open>processJob\<close> from its start to the call of \<open>composePrompt\<close>.
\<close>

definition processJob_start :: "Date \<Rightarrow> GenerationJob \<Rightarrow> app \<Rightarrow> outcome \<times> app" where
  "processJob_start now job a =
     (case get (sessionStore a) (j_sessionId job) of
        None \<Rightarrow> (Thrown ''Session not found'', a)
      | Some session \<Rightarrow>
          (case find (\<lambda>d. d_id d = j_directionId job) (s_directions session) of
             None \<Rightarrow> (Thrown ''Direction not found'', a)
           | Some direction \<Rightarrow>
               (let a1 = storeUpdateNode now (j_sessionId job) (j_nodeId job)
                           [F_status N_generating, F_progress 5] a;
                    a2 = emitProgress now (j_sessionId job) (j_nodeId job) (j_directionId job) 5
                           St_composing ''Composing prompt...'' a1;
                    a3 = emitProgress now (j_sessionId job) (j_nodeId job) (j_directionId job) 15
                           St_composing ''Composing prompt...'' a2
                in (Suspend AwaitCompose, a3))))"

text \<open>
  The end of \<open>processJob\<close>, once \<open>generateImage\<close> or \<open>generateVideo\<close> has returned
  \<open>outputUrl\<close>.
\<close>

definition processJob_complete :: "Date \<Rightarrow> GenerationJob \<Rightarrow> GatedPackage \<Rightarrow> string \<Rightarrow> app \<Rightarrow> outcome \<times> app" where
  "processJob_complete now job gatedPackage outputUrl a =
     (let a1 = emitProgress now (j_sessionId job) (j_nodeId job) (j_directionId job) 95
                 St_saving ''Saving...'' a;
          a2 = storeUpdateNode now (j_sessionId job) (j_nodeId job)
                 [F_status N_complete, F_outputUrl (Some outputUrl),
                  F_thumbnailUrl (Some outputUrl), F_progress 100, F_completedAt (Some now)] a1;
          a3 = emitComplete now (j_sessionId job) (j_nodeId job) (j_directionId job)
                 outputUrl (Some outputUrl) (pp_explanationShort gatedPackage) a2
      in (Returned, a3))"

text \<open>The \<open>catch\<close> blocks of \<open>generateImage\<close> and \<open>generateVideo\<close>.\<close>

definition imageCatch :: "nat \<Rightarrow> string \<Rightarrow> app \<Rightarrow> outcome \<times> app" where
  "imageCatch ticker message a =
     (Thrown (''Image generation failed: '' @ message), stopTicker ticker a)"

definition videoCatch :: "nat \<Rightarrow> string \<Rightarrow> app \<Rightarrow> outcome \<times> app" where
  "videoCatch ticker message a =
     (Thrown (''Video generation failed: '' @ message), stopTicker ticker a)"

text \<open>
  The head of the poll loop of \<open>generateVideo\<close>:
  \<open>while (!videoUrl && attempts < maxAttempts)\<close> with no \<open>videoUrl\<close> yet, and the
  timeout after it.
\<close>

definition videoPoll :: "GatedPackage \<Rightarrow> nat \<Rightarrow> nat \<Rightarrow> app \<Rightarrow> outcome \<times> app" where
  "videoPoll gatedPackage ticker attempts a =
     (if attempts < 120 then (Suspend (AwaitVidSleep gatedPackage ticker attempts), a)
      else videoCatch ticker ''Video generation timed out'' a)"

text \<open>
  \<open>processJob\<close> after the gate has approved: the node gets its prompt, and
  \<open>generateImage\<close> or \<open>generateVideo\<close> runs to its first await. \<open>generateVideo\<close> starts
  the ticker before it tests the API key, and throws outside its \<open>try\<close>.
\<close>

definition processJob_generate :: "Date \<Rightarrow> GenerationJob \<Rightarrow> GatedPackage \<Rightarrow> app \<Rightarrow> outcome \<times> app" where
  "processJob_generate now job gatedPackage a =
     (let a1 = storeUpdateNode now (j_sessionId job) (j_nodeId job)
                 [F_prompt (Some (pp_prompt gatedPackage)),
                  F_promptMeta (Some (pp_params gatedPackage)),
                  F_negative (pp_negative gatedPackage),
                  F_explanationShort (Some (pp_explanationShort gatedPackage)),
                  F_salienceDelta (pp_salienceDelta gatedPackage),
                  F_progress 40] a;
          a2 = emitProgress now (j_sessionId job) (j_nodeId job) (j_directionId job) 40
                 St_generating ''Generating...'' a1;
          started = startProgressTicker (j_sessionId job) (j_nodeId job) (j_directionId job) 40 90 a2;
          ticker = fst started;
          a3 = snd started
      in if j_mediaType job = Image then (Suspend (AwaitImgMkdir gatedPackage ticker), a3)
         else (case OPENAI_API_KEY a3 of
                 None \<Rightarrow> (Thrown ''OPENAI_API_KEY is not configured'', a3)
               | Some apiKey \<Rightarrow>
                   if apiKey = [] then (Thrown ''OPENAI_API_KEY is not configured'', a3)
                   else (Suspend (AwaitVidMkdir gatedPackage ticker), a3)))"

text \<open>
  The continuation of the suspended job when its await settles with \<open>reply\<close>; \<open>None\<close>
  when the reply is not one the await can give.
\<close>

definition processJob_resume :: "Date \<Rightarrow> GenerationJob \<Rightarrow> pc \<Rightarrow> reply \<Rightarrow> app \<Rightarrow> (outcome \<times> app) option" where
  "processJob_resume now job p reply a =
     (case p of
        AwaitCompose \<Rightarrow>
          (case reply of
             R_composed promptPackage \<Rightarrow>
               Some (if pp_needsRevision promptPackage
                     then (Thrown (''Prompt composition failed: ''
                                   @ join ''; '' (pp_issues promptPackage)), a)
                     else (Suspend AwaitGate,
                           emitProgress now (j_sessionId job) (j_nodeId job) (j_directionId job) 30
                             St_gating ''Validating prompt...'' a))
           | R_threw message \<Rightarrow> Some (Thrown message, a)
           | _ \<Rightarrow> None)
      | AwaitGate \<Rightarrow>
          (case reply of
             R_gated gatedPackage \<Rightarrow>
               Some (if \<not> gp_approved gatedPackage
                     then (Thrown (''Prompt rejected: ''
                                   @ join ''; '' (gp_gateIssues gatedPackage)), a)
                     else processJob_generate now job gatedPackage a)
           | R_threw message \<Rightarrow> Some (Thrown message, a)
           | _ \<Rightarrow> None)
      | AwaitImgMkdir pkg ticker \<Rightarrow>
          (case reply of
             R_done \<Rightarrow>
               Some (Suspend (AwaitImgApi pkg ticker),
                     emitProgress now (j_sessionId job) (j_nodeId job) (j_directionId job) 50
                       St_generating ''Creating image...'' a)
           | R_threw message \<Rightarrow> Some (imageCatch ticker message a)
           | _ \<Rightarrow> None)
      | AwaitImgApi pkg ticker \<Rightarrow>
          (case reply of
             R_image response \<Rightarrow>
               Some (let a1 = stopTicker ticker a;
                         a2 = emitProgress now (j_sessionId job) (j_nodeId job) (j_directionId job) 85
                                St_saving ''Saving image...'' a1
                     in case response of
                          None \<Rightarrow> imageCatch ticker ''No image data returned from API'' a2
                        | Some None \<Rightarrow>
                            imageCatch ticker ''No base64 image data returned from API'' a2
                        | Some (Some b64_json) \<Rightarrow>
                            if b64_json = []
                            then imageCatch ticker ''No base64 image data returned from API'' a2
                            else (Suspend (AwaitImgWrite pkg ticker), a2))
           | R_threw message \<Rightarrow> Some (imageCatch ticker message a)
           | _ \<Rightarrow> None)
      | AwaitImgWrite pkg ticker \<Rightarrow>
          (case reply of
             R_done \<Rightarrow>
               Some (processJob_complete now job pkg
                       (publicUrl (j_sessionId job) (j_nodeId job) ''.png'') a)
           | R_threw message \<Rightarrow> Some (imageCatch ticker message a)
           | _ \<Rightarrow> None)
      | AwaitVidMkdir pkg ticker \<Rightarrow>
          (case reply of
             R_done \<Rightarrow>
               Some (Suspend (AwaitVidCreate pkg ticker),
                     emitProgress now (j_sessionId job) (j_nodeId job) (j_directionId job) 45
                       St_generating ''Initiating video generation...'' a)
           | R_threw message \<Rightarrow> Some (videoCatch ticker message a)
           | _ \<Rightarrow> None)
      | AwaitVidCreate pkg ticker \<Rightarrow>
          (case reply of
             R_create_ok videoJobId \<Rightarrow>
               Some (videoPoll pkg ticker 0
                       (emitProgress now (j_sessionId job) (j_nodeId job) (j_directionId job) 50
                          St_generating ''Video rendering in progress...'' a))
           | R_create_not_ok message \<Rightarrow> Some (videoCatch ticker message a)
           | R_threw message \<Rightarrow> Some (videoCatch ticker message a)
           | _ \<Rightarrow> None)
      | AwaitVidSleep pkg ticker attempts \<Rightarrow>
          (case reply of
             R_done \<Rightarrow>
               Some (Suspend (AwaitVidStatus pkg ticker (attempts + 1)),
                     emitProgress now (j_sessionId job) (j_nodeId job) (j_directionId job)
                       (50 + min 35 (of_nat (attempts + 1) * (1 / 2)))
                       St_generating ''Rendering video...'' a)
           | _ \<Rightarrow> None)
      | AwaitVidStatus pkg ticker attempts \<Rightarrow>
          (case reply of
             R_status_not_ok \<Rightarrow> Some (videoPoll pkg ticker attempts a)
           | R_status_other \<Rightarrow> Some (videoPoll pkg ticker attempts a)
           | R_status_completed videoUrl \<Rightarrow>
               Some (if videoUrl = [] then videoPoll pkg ticker attempts a
                     else (Suspend (AwaitVidDownload pkg ticker),
                           emitProgress now (j_sessionId job) (j_nodeId job) (j_directionId job) 88
                             St_saving ''Downloading video...'' (stopTicker ticker a)))
           | R_status_failed message \<Rightarrow>
               Some (videoCatch ticker
                       (case message of
                          None \<Rightarrow> ''Video generation failed''
                        | Some m \<Rightarrow> if m = [] then ''Video generation failed'' else m) a)
           | R_threw message \<Rightarrow> Some (videoCatch ticker message a)
           | _ \<Rightarrow> None)
      | AwaitVidDownload pkg ticker \<Rightarrow>
          (case reply of
             R_download_ok \<Rightarrow> Some (Suspend (AwaitVidWrite pkg ticker), a)
           | R_download_not_ok \<Rightarrow>
               Some (videoCatch ticker ''Failed to download generated video'' a)
           | R_threw message \<Rightarrow> Some (videoCatch ticker message a)
           | _ \<Rightarrow> None)
      | AwaitVidWrite pkg ticker \<Rightarrow>
          (case reply of
             R_done \<Rightarrow>
               Some (processJob_complete now job pkg
                       (publicUrl (j_sessionId job) (j_nodeId job) ''.mp4'') a)
           | R_threw message \<Rightarrow> Some (videoCatch ticker message a)
           | _ \<Rightarrow> None))"

subsection \<open>processQueue\<close>

text \<open>
  The \<open>catch\<close> block of \<open>processQueue\<close>: the job and its node are marked, then
  \<open>emitError\<close> is called. When that throws, the exception leaves \<open>processQueue\<close>.
\<close>

definition failJob :: "Date \<Rightarrow> GenerationJob \<Rightarrow> string \<Rightarrow> app \<Rightarrow> string option \<times> app" where
  "failJob now job message a =
     (let failed = job\<lparr>j_status := J_failed, j_error := Some message\<rparr>;
          a1 = storeUpdateNode now (j_sessionId job) (j_nodeId job)
                 [F_status N_error, F_error (Some message)] (a\<lparr>finished := finished a @ [failed]\<rparr>)
      in emitError now (j_sessionId job) (Some (j_nodeId job)) message a1)"

definition completeJob :: "GenerationJob \<Rightarrow> app \<Rightarrow> app" where
  "completeJob job a = a\<lparr>finished := finished a @ [job\<lparr>j_status := J_completed\<rparr>]\<rparr>"

text \<open>
  The \<open>while\<close> loop of \<open>processQueue\<close> from its head, over the jobs that are queued:
  it runs until a job suspends (the loop is then waiting inside that job), until the
  queue is empty (\<open>isProcessing\<close> is reset and the invocation ends) or until an exception
  leaves the \<open>catch\<close> block (the invocation ends without resetting \<open>isProcessing\<close>).
\<close>

fun drain :: "Date \<Rightarrow> GenerationJob list \<Rightarrow> app \<Rightarrow> Loop option \<times> app" where
  "drain now [] a = (None, a\<lparr>jobQueue := [], isProcessing := False\<rparr>)"
| "drain now (job # rest) a =
     (let processing = job\<lparr>j_status := J_processing\<rparr>;
          started = processJob_start now processing (a\<lparr>jobQueue := rest\<rparr>)
      in case fst started of
           Suspend p \<Rightarrow> (Some \<lparr>l_job = processing, l_pc = p\<rparr>, snd started)
         | Returned \<Rightarrow> drain now rest (completeJob processing (snd started))
         | Thrown message \<Rightarrow>
             (let caught = failJob now processing message (snd started)
              in case fst caught of
                   Some exception \<Rightarrow> (None, snd caught)
                 | None \<Rightarrow> drain now rest (snd caught)))"

definition processQueue :: "Date \<Rightarrow> app \<Rightarrow> app" where
  "processQueue now a =
     (if isProcessing a then a
      else (let entered = drain now (jobQueue a) (a\<lparr>isProcessing := True\<rparr>)
            in case fst entered of
                 Some loop \<Rightarrow> (snd entered)\<lparr>loops := loops (snd entered) @ [loop]\<rparr>
               | None \<Rightarrow> snd entered))"

definition enqueueGeneration :: "Date \<Rightarrow> string \<Rightarrow> string \<Rightarrow> string \<Rightarrow> string \<Rightarrow> string option
    \<Rightarrow> MediaType \<Rightarrow> int \<Rightarrow> app \<Rightarrow> string + app" where
  "enqueueGeneration now nodeId jobId sessionId directionId parentNodeId mediaType depth a =
     (case get (sessionStore a) sessionId of
        None \<Rightarrow> Inl ''Session not found''
      | Some session \<Rightarrow>
          (case find (\<lambda>d. d_id d = directionId) (s_directions session) of
             None \<Rightarrow> Inl ''Direction not found''
           | Some direction \<Rightarrow>
               (let node = \<lparr>n_id = nodeId, n_directionId = directionId, n_depth = depth,
                            n_status = N_queued, n_mediaType = mediaType,
                            n_model = (if mediaType = Image then Gpt_image_1_5 else Sora_2),
                            n_prompt = None, n_promptMeta = None, n_negative = [],
                            n_explanationShort = None, n_outputUrl = None, n_thumbnailUrl = None,
                            n_progress = 0, n_streamingContent = None, n_error = None,
                            n_isPinned = False, n_parentNodeId = parentNodeId,
                            n_salienceDelta = [], n_createdAt = now, n_completedAt = None\<rparr>;
                    a1 = a\<lparr>sessionStore := snd (addNode now sessionId directionId node (sessionStore a))\<rparr>;
                    a2 = emitNodeCreated now sessionId nodeId directionId depth a1;
                    job = \<lparr>j_id = jobId, j_sessionId = sessionId, j_directionId = directionId,
                           j_nodeId = nodeId, j_parentNodeId = parentNodeId,
                           j_mediaType = mediaType, j_depth = depth, j_status = J_queued,
                           j_error = None\<rparr>;
                    a3 = a2\<lparr>jobQueue := jobQueue a2 @ [job]\<rparr>
                in Inr (if \<not> isProcessing a3 then processQueue now a3 else a3))))"

text \<open>
  The loop at position \<open>i\<close> continues when its await settles: the job goes on to its
  next await, or it returns or throws and the loop goes on with the queue.
\<close>

definition remove_at :: "nat \<Rightarrow> 'a list \<Rightarrow> 'a list" where
  "remove_at i xs = take i xs @ drop (Suc i) xs"

definition continueLoop :: "nat \<Rightarrow> Loop option \<times> app \<Rightarrow> app" where
  "continueLoop i r =
     (case fst r of
        Some loop \<Rightarrow> (snd r)\<lparr>loops := (loops (snd r))[i := loop]\<rparr>
      | None \<Rightarrow> (snd r)\<lparr>loops := remove_at i (loops (snd r))\<rparr>)"

definition resume :: "Date \<Rightarrow> nat \<Rightarrow> reply \<Rightarrow> app \<Rightarrow> app" where
  "resume now i reply a =
     (if i < length (loops a) then
        (let job = l_job (loops a ! i) in
         case processJob_resume now job (l_pc (loops a ! i)) reply a of
           None \<Rightarrow> a
         | Some (Suspend p, a1) \<Rightarrow> a1\<lparr>loops := (loops a1)[i := \<lparr>l_job = job, l_pc = p\<rparr>]\<rparr>
         | Some (Returned, a1) \<Rightarrow>
             continueLoop i (drain now (jobQueue a1) (completeJob job a1))
         | Some (Thrown message, a1) \<Rightarrow>
             (let caught = failJob now job message a1
              in case fst caught of
                   Some exception \<Rightarrow> (snd caught)\<lparr>loops := remove_at i (loops (snd caught))\<rparr>
                 | None \<Rightarrow> continueLoop i (drain now (jobQueue (snd caught)) (snd caught))))
      else a)"

text \<open>
  What can happen, one turn of the event loop at a time: a call of
  \<open>enqueueGeneration\<close> (with the two UUIDs it draws and the clock), an await of a loop
  settling, an interval firing.
\<close>

datatype action =
  Enqueue Date string string string string "string option" MediaType int
  | Resume Date nat reply
  | Tick Date nat

fun step :: "action \<Rightarrow> app \<Rightarrow> app" where
  "step (Enqueue now nodeId jobId sessionId directionId parentNodeId mediaType depth) a =
     (case enqueueGeneration now nodeId jobId sessionId directionId parentNodeId mediaType depth a of
        Inl message \<Rightarrow> a
      | Inr a' \<Rightarrow> a')"
| "step (Resume now i reply) a = resume now i reply a"
| "step (Tick now k) a = tick now k a"

definition run :: "action list \<Rightarrow> app \<Rightarrow> app" where
  "run actions a = fold step actions a"

definition idle :: "store \<Rightarrow> string list \<Rightarrow> string option \<Rightarrow> app" where
  "idle st listeners apiKey =
     \<lparr>sessionStore = st, jobQueue = [], isProcessing = False, loops = [], finished = [],
      tickers = [], streamed = [], errorListeners = listeners, OPENAI_API_KEY = apiKey\<rparr>"

section \<open>POST /api/salience/session/[sessionId]/generate\<close>

record GenerateBody =
  b_directionId :: "string option"
  b_parentNodeId :: "string option"
  b_mediaType :: "MediaType option"
  b_depth :: "int option"

datatype GenerateResponse =
  Rejected nat string
  | Started string string string int MediaType

text \<open>\<open>const actualDepth = depth ?? direction.nodes.length + 1\<close>\<close>

definition actualDepth :: "int option \<Rightarrow> Direction \<Rightarrow> int" where
  "actualDepth depth direction =
     (case depth of Some d \<Rightarrow> d | None \<Rightarrow> int (length (d_nodes direction)) + 1)"

definition POST_generate :: "Date \<Rightarrow> string \<Rightarrow> string \<Rightarrow> string \<Rightarrow> GenerateBody \<Rightarrow> app
    \<Rightarrow> GenerateResponse \<times> app" where
  "POST_generate now nodeId jobId sessionId body a =
     (case b_directionId body of
        None \<Rightarrow> (Rejected 400 ''directionId is required'', a)
      | Some directionId \<Rightarrow>
          if directionId = [] then (Rejected 400 ''directionId is required'', a)
          else
            (case get (sessionStore a) sessionId of
               None \<Rightarrow> (Rejected 404 ''Session not found'', a)
             | Some session \<Rightarrow>
                 if s_salienceProfile session = None \<or> length (s_directions session) = 0
                 then (Rejected 400 ''Session must be analyzed before generation'', a)
                 else
                   (case find (\<lambda>d. d_id d = directionId) (s_directions session) of
                      None \<Rightarrow> (Rejected 404 ''Direction not found'', a)
                    | Some direction \<Rightarrow>
                        (let mediaType = (case b_mediaType body of None \<Rightarrow> Image | Some m \<Rightarrow> m);
                             depth = actualDepth (b_depth body) direction
                         in if depth > 5 then (Rejected 400 ''Maximum depth reached'', a)
                            else if (case b_parentNodeId body of
                                       None \<Rightarrow> False
                                     | Some parentNodeId \<Rightarrow>
                                         parentNodeId \<noteq> []
                                         \<and> getNode (sessionStore a) sessionId parentNodeId = None)
                            then (Rejected 404 ''Parent node not found'', a)
                            else
                              (case enqueueGeneration now nodeId jobId sessionId directionId
                                      (b_parentNodeId body) mediaType depth a of
                                 Inl message \<Rightarrow> (Rejected 500 message, a)
                               | Inr a1 \<Rightarrow>
                                   (Started nodeId jobId directionId depth mediaType,
                                    a1\<lparr>sessionStore :=
                                          snd (setState now sessionId S_generating (sessionStore a1))\<rparr>))))))"

section \<open>Observations on the queue\<close>

text \<open>
  Every job object there is, oldest first: the ones the loop is done with, the one a loop
  is waiting in, the ones still queued. \<open>accepted\<close> lists the job ids of the calls of
  \<open>enqueueGeneration\<close> that created a job, in the order of the calls.
\<close>

definition allJobs :: "app \<Rightarrow> GenerationJob list" where
  "allJobs a = finished a @ map l_job (loops a) @ jobQueue a"

fun accepted :: "action list \<Rightarrow> app \<Rightarrow> string list" where
  "accepted [] a = []"
| "accepted (act # acts) a =
     (case act of
        Enqueue now nodeId jobId sessionId directionId parentNodeId mediaType depth \<Rightarrow>
          (case enqueueGeneration now nodeId jobId sessionId directionId parentNodeId mediaType depth a of
             Inl message \<Rightarrow> []
           | Inr a' \<Rightarrow> [jobId])
      | _ \<Rightarrow> [])
     @ accepted acts (step act a)"

definition doneStatus :: "GenerationJob \<Rightarrow> bool" where
  "doneStatus j = (j_status j = J_completed \<or> j_status j = J_failed)"

definition queueInv :: "app \<Rightarrow> bool" where
  "queueInv a =
     (length (loops a) \<le> 1
      \<and> (loops a = [] \<or> isProcessing a)
      \<and> (isProcessing a \<or> jobQueue a = [])
      \<and> list_all (\<lambda>l. j_status (l_job l) = J_processing) (loops a)
      \<and> list_all (\<lambda>j. j_status j = J_queued) (jobQueue a)
      \<and> list_all doneStatus (finished a))"

text \<open>The type of a streamed event and, for a progress event, its progress value.\<close>

definition eventProgress :: "StreamEvent \<Rightarrow> StreamEventType \<times> rat option" where
  "eventProgress e = (e_type e, case e_payload e of P_progress n d p s m \<Rightarrow> Some p | _ \<Rightarrow> None)"

text \<open>
  A state in which \<open>isProcessing\<close> is set although no invocation of \<open>processQueue\<close> is
  alive.
\<close>

definition halted :: "app \<Rightarrow> bool" where
  "halted a = (isProcessing a \<and> loops a = [])"

text \<open>The ids and depths of the nodes of a direction, in order.\<close>

definition nodeDepths :: "store \<Rightarrow> string \<Rightarrow> string \<Rightarrow> (string \<times> int) list" where
  "nodeDepths st sessionId directionId =
     (case getDirection st sessionId directionId of
        None \<Rightarrow> []
      | Some direction \<Rightarrow> map (\<lambda>n. (n_id n, n_depth n)) (d_nodes direction))"

section \<open>Concrete values for the witnesses\<close>

definition date1 :: Date where
  "date1 = \<lparr>year = 2025, month = 3, day = 14, hours = 9, minutes = 26, seconds = 53, milliseconds = 589\<rparr>"

definition date2 :: Date where
  "date2 = \<lparr>year = 2025, month = 3, day = 14, hours = 9, minutes = 27, seconds = 10, milliseconds = 0\<rparr>"

definition demo_vector :: DirectionVector where
  "demo_vector = \<lparr>dv_pushAxes = [\<lparr>ad_axis = ''scale'', ad_strength = 1/2\<rparr>], dv_pullAxes = [],
     dv_styleTags = [''epic''], dv_avoidTags = []\<rparr>"

definition demo_skeleton :: PromptSkeleton where
  "demo_skeleton = \<lparr>ps_coreSubject = ''a fox'', ps_sceneComposition = ''wide'',
     ps_styleAndMood = ''moody'', ps_constraints = []\<rparr>"

definition demo_node :: "string \<Rightarrow> int \<Rightarrow> GenerationNode" where
  "demo_node nodeId depth =
     \<lparr>n_id = nodeId, n_directionId = ''d1'', n_depth = depth, n_status = N_complete,
      n_mediaType = Image, n_model = Gpt_image_1_5, n_prompt = Some ''a fox'',
      n_promptMeta = None, n_negative = [], n_explanationShort = None,
      n_outputUrl = Some ''/uploads/generated/s1/x.png'', n_thumbnailUrl = None,
      n_progress = 100, n_streamingContent = None, n_error = None, n_isPinned = False,
      n_parentNodeId = None, n_salienceDelta = [], n_createdAt = date1,
      n_completedAt = Some date1\<rparr>"

definition demo_direction :: "string \<Rightarrow> GenerationNode list \<Rightarrow> Direction" where
  "demo_direction directionId nodes =
     \<lparr>d_id = directionId, d_index = 0, d_label = ''Cinematic'', d_intent = ''go bigger'',
      d_vector = demo_vector, d_promptSkeleton = demo_skeleton, d_nodes = nodes,
      d_createdAt = date1\<rparr>"

definition demo_profile :: SalienceProfile where
  "demo_profile =
     \<lparr>sp_axes = [\<lparr>ax_name = ''scale'', ax_weight = 1/2, ax_value = 1/4,
                   ax_polarities = (''small'', ''large'')\<rparr>],
      sp_styleTags = [''epic''], sp_avoidTags = [], sp_compositionNotes = [],
      sp_moodNotes = [], sp_colorNotes = [], sp_explanationShort = ''moody fox'',
      sp_extractedAt = date1\<rparr>"

definition demo_session :: "string \<Rightarrow> SessionState \<Rightarrow> Direction list \<Rightarrow> Session" where
  "demo_session sessionId state directions =
     \<lparr>s_id = sessionId, s_mode = M_character_design, s_state = state,
      s_referenceUrls = [''/uploads/ref.png''], s_caption = ''fox'',
      s_salienceProfile = Some demo_profile, s_directions = directions,
      s_preferences = \<lparr>pr_weights = [], pr_explorationRate = 3/10, pr_styleAffinities = [],
                        pr_updatedAt = date1\<rparr>,
      s_createdAt = date1, s_updatedAt = date1\<rparr>"

definition demo_store :: store where
  "demo_store =
     \<lparr>sessions = [(''s1'', demo_session ''s1'' S_directions_planned
                        [demo_direction ''d1'' [demo_node ''n1'' 1, demo_node ''n2'' 2]])],
      dirty = []\<rparr>"

definition dated_caption_session :: Session where
  "dated_caption_session =
     (demo_session ''s1'' S_initializing [])\<lparr>s_caption := ''2024-01-01T10:00:00.000Z''\<rparr>"

definition member :: "jsval \<Rightarrow> string \<Rightarrow> jsval option" where
  "member v k = (case v of VObj ms \<Rightarrow> map_of ms k | _ \<Rightarrow> None)"

definition setMember :: "string \<Rightarrow> jsval \<Rightarrow> jsval \<Rightarrow> jsval" where
  "setMember k x v = (case v of VObj ms \<Rightarrow> VObj (AList.update k x ms) | _ \<Rightarrow> v)"

definition unbounded_depth_node :: jsval where
  "unbounded_depth_node =
     setMember ''depth'' (VNum NegInfinity) (js_of_GenerationNode (demo_node ''n1'' 1))"

definition w_session :: Session where
  "w_session = demo_session ''s1'' S_directions_planned
       [demo_direction ''d1'' [demo_node ''n1'' 1, demo_node ''n2'' 2]]"

definition two_dirty_store :: store where
  "two_dirty_store =
     \<lparr>sessions = [(''s1'', demo_session ''s1'' S_idle []), (''s2'', demo_session ''s2'' S_idle [])],
      dirty = [''s1'', ''s2'']\<rparr>"

definition one_store :: store where
  "one_store =
     \<lparr>sessions = [(''s1'', demo_session ''s1'' S_directions_planned [demo_direction ''d1'' []])],
      dirty = []\<rparr>"

definition demo_meta :: PromptMeta where
  "demo_meta = \<lparr>pm_aspectRatio = ''1:1'', pm_seed = 7, pm_styleStrength = 1/2, pm_guidance = 6,
     pm_duration = None, pm_fps = None\<rparr>"

definition demo_package :: "bool \<Rightarrow> string list \<Rightarrow> PromptPackage" where
  "demo_package needsRevision issues =
     \<lparr>pp_modelTarget = Gpt_image_1_5, pp_prompt = ''a fox, wide'', pp_negative = [],
      pp_params = demo_meta, pp_explanationShort = ''wider'', pp_salienceDelta = [],
      pp_needsRevision = needsRevision, pp_issues = issues\<rparr>"

definition demo_gated :: "bool \<Rightarrow> string list \<Rightarrow> GatedPackage" where
  "demo_gated approved gateIssues =
     \<lparr>pp_modelTarget = Gpt_image_1_5, pp_prompt = ''a fox, wide'', pp_negative = [],
      pp_params = demo_meta, pp_explanationShort = ''wider'', pp_salienceDelta = [],
      pp_needsRevision = False, pp_issues = [], gp_approved = approved, gp_revised = False,
      gp_gateIssues = gateIssues\<rparr>"

definition demo_app :: app where
  "demo_app = idle demo_store [] None"

definition demo_body :: "int option \<Rightarrow> GenerateBody" where
  "demo_body depth =
     \<lparr>b_directionId = Some ''d1'', b_parentNodeId = None, b_mediaType = None, b_depth = depth\<rparr>"

definition two_enqueues :: "action list" where
  "two_enqueues =
     [Enqueue date2 ''n1'' ''j1'' ''s1'' ''d1'' None Image 1,
      Enqueue date2 ''n2'' ''j2'' ''s1'' ''d1'' None Image 2]"

definition failing_run :: "string list \<Rightarrow> app" where
  "failing_run listeners =
     run (two_enqueues @ [Resume date2 0 (R_composed (demo_package True [''too vague'']))])
       (idle one_store listeners None)"

definition image_run :: app where
  "image_run =
     run [Enqueue date2 ''n1'' ''j1'' ''s1'' ''d1'' None Image 1,
          Resume date2 0 (R_composed (demo_package False [])),
          Resume date2 0 (R_gated (demo_gated True [])),
          Resume date2 0 R_done,
          Tick date2 0,
          Resume date2 0 (R_image (Some (Some ''iVBOR''))),
          Resume date2 0 R_done]
       (idle one_store [] None)"

definition video_run :: "string list \<Rightarrow> app" where
  "video_run listeners =
     run [Enqueue date2 ''n1'' ''j1'' ''s1'' ''d1'' None Video 1,
          Resume date2 0 (R_composed (demo_package False [])),
          Resume date2 0 (R_gated (demo_gated True [])),
          Tick date2 0]
       (idle one_store listeners None)"

section \<open>Store properties\<close>

lemma map_of_AList_update_same: "map_of (AList.update k v al) k = Some v"
  by (simp add: update_conv')

lemma update_present:
  assumes "get st sessionId = Some session"
  shows "update now sessionId updates st =
           (Some ((spreadSession session updates)\<lparr>s_updatedAt := now\<rparr>),
            st\<lparr>sessions := AList.update sessionId ((spreadSession session updates)\<lparr>s_updatedAt := now\<rparr>) (sessions st),
               dirty := set_add sessionId (dirty st)\<rparr>)"
  using assms by (simp add: update_def get_def Let_def)

lemma get_after_update:
  assumes "update now sessionId updates st = (Some updated, st')"
  shows "get st' sessionId = Some updated"
  using assms
  by (auto simp: update_def get_def Let_def map_of_AList_update_same split: option.splits)

lemma set_add_member: "x \<in> set (set_add x xs)"
  by (simp add: set_add_def)

text \<open>
  C7. \<open>setReferences\<close> with an empty list keeps the session's \<open>state\<close>; with a
  non-empty list it sets \<open>state\<close> to \<open>references_uploaded\<close> whatever the state was
  (the source has no test on the prior state).
\<close>

theorem setReferences_state:
  assumes "get st sessionId = Some session"
  shows "\<exists>updated st'. setReferences now sessionId urls st = (Some updated, st')
           \<and> get st' sessionId = Some updated
           \<and> s_referenceUrls updated = urls
           \<and> s_state updated = (if urls = [] then s_state session else S_references_uploaded)"
proof -
  let ?fields = "[G_referenceUrls urls,
                  G_state (if length urls > 0 then S_references_uploaded else s_state session)]"
  let ?updated = "(spreadSession session ?fields)\<lparr>s_updatedAt := now\<rparr>"
  have run: "setReferences now sessionId urls st = update now sessionId ?fields st"
    using assms by (simp add: setReferences_def)
  obtain st' where upd: "update now sessionId ?fields st = (Some ?updated, st')"
    using update_present [OF assms] by simp
  have "get st' sessionId = Some ?updated"
    by (rule get_after_update [OF upd])
  moreover have "s_referenceUrls ?updated = urls"
    by (simp add: spreadSession_def)
  moreover have "s_state ?updated = (if urls = [] then s_state session else S_references_uploaded)"
    by (simp add: spreadSession_def)
  ultimately show ?thesis
    using run upd by simp
qed

theorem setReferences_state_witness:
  "get demo_store ''s1'' = Some (demo_session ''s1'' S_directions_planned
       [demo_direction ''d1'' [demo_node ''n1'' 1, demo_node ''n2'' 2]])
   \<and> (\<exists>updated st'. setReferences date2 ''s1'' [] demo_store = (Some updated, st')
         \<and> get st' ''s1'' = Some updated
         \<and> s_referenceUrls updated = []
         \<and> s_state updated = S_directions_planned)"
proof -
  have g: "get demo_store ''s1'' = Some (demo_session ''s1'' S_directions_planned
       [demo_direction ''d1'' [demo_node ''n1'' 1, demo_node ''n2'' 2]])"
    by (simp add: get_def demo_store_def)
  have "s_state (demo_session ''s1'' S_directions_planned
       [demo_direction ''d1'' [demo_node ''n1'' 1, demo_node ''n2'' 2]]) = S_directions_planned"
    by (simp add: demo_session_def)
  then show ?thesis
    using g setReferences_state [OF g, of date2 "[]"] by simp
qed

text \<open>
  C7, as the claim states it, fails: a session that is already past
  \<open>references_uploaded\<close> (here \<open>directions_planned\<close>) is set back to
  \<open>references_uploaded\<close> by a non-empty list.
\<close>

theorem setReferences_later_state_counterexample:
  "map_option s_state (get demo_store ''s1'') = Some S_directions_planned
   \<and> map_option s_state (fst (setReferences date2 ''s1'' [''/uploads/b.png''] demo_store))
       = Some S_references_uploaded
   \<and> map_option s_state (get (snd (setReferences date2 ''s1'' [''/uploads/b.png''] demo_store)) ''s1'')
       = Some S_references_uploaded"
  by (simp add: setReferences_def update_def get_def demo_store_def demo_session_def
      spreadSession_def Let_def)

text \<open>
  C10. \<open>updateNode\<close> with a node id that no direction of the session holds is not an
  error: it returns the session, with every direction and node list as before, a fresh
  \<open>updatedAt\<close>, and the session marked dirty.
\<close>

lemma map_nodes_unchanged:
  assumes "\<forall>n\<in>set nodes. n_id n \<noteq> nodeId"
  shows "map (\<lambda>n. if n_id n = nodeId then spreadNode n updates else n) nodes = nodes"
  using assms by (induction nodes) auto

lemma map_directions_unchanged:
  assumes "\<forall>d\<in>set directions. \<forall>n\<in>set (d_nodes d). n_id n \<noteq> nodeId"
  shows "map (\<lambda>d. d\<lparr>d_nodes :=
                 map (\<lambda>n. if n_id n = nodeId then spreadNode n updates else n) (d_nodes d)\<rparr>)
           directions = directions"
  using assms by (induction directions) (auto simp: map_nodes_unchanged)

theorem updateNode_unknown_node:
  assumes "get st sessionId = Some session"
    and "\<forall>d\<in>set (s_directions session). \<forall>n\<in>set (d_nodes d). n_id n \<noteq> nodeId"
  shows "\<exists>st'. updateNode now sessionId nodeId updates st = (Some (session\<lparr>s_updatedAt := now\<rparr>), st')
           \<and> get st' sessionId = Some (session\<lparr>s_updatedAt := now\<rparr>)
           \<and> s_directions (session\<lparr>s_updatedAt := now\<rparr>) = s_directions session
           \<and> sessionId \<in> set (dirty st')"
proof -
  let ?directions = "map (\<lambda>d. d\<lparr>d_nodes :=
                 map (\<lambda>n. if n_id n = nodeId then spreadNode n updates else n) (d_nodes d)\<rparr>)
           (s_directions session)"
  have same: "?directions = s_directions session"
    by (rule map_directions_unchanged [OF assms(2)])
  have run: "updateNode now sessionId nodeId updates st
               = update now sessionId [G_directions ?directions] st"
    using assms(1) by (simp add: updateNode_def Let_def)
  have merged: "spreadSession session [G_directions ?directions] = session"
    by (simp add: spreadSession_def same)
  let ?st' = "st\<lparr>sessions := AList.update sessionId (session\<lparr>s_updatedAt := now\<rparr>) (sessions st),
                  dirty := set_add sessionId (dirty st)\<rparr>"
  have upd: "update now sessionId [G_directions ?directions] st
               = (Some (session\<lparr>s_updatedAt := now\<rparr>), ?st')"
    using update_present [OF assms(1), of now "[G_directions ?directions]"] merged by simp
  have "get ?st' sessionId = Some (session\<lparr>s_updatedAt := now\<rparr>)"
    by (simp add: get_def map_of_AList_update_same)
  moreover have "sessionId \<in> set (dirty ?st')"
    by (simp add: set_add_member)
  ultimately show ?thesis
    using run upd by simp
qed

theorem updateNode_unknown_node_witness:
  "get demo_store ''s1'' = Some (demo_session ''s1'' S_directions_planned
       [demo_direction ''d1'' [demo_node ''n1'' 1, demo_node ''n2'' 2]])
   \<and> (\<exists>st'. updateNode date2 ''s1'' ''n9'' [F_status N_error, F_progress 7] demo_store
          = (Some ((demo_session ''s1'' S_directions_planned
               [demo_direction ''d1'' [demo_node ''n1'' 1, demo_node ''n2'' 2]])\<lparr>s_updatedAt := date2\<rparr>), st')
        \<and> ''s1'' \<in> set (dirty st'))"
proof -
  let ?session = "demo_session ''s1'' S_directions_planned
       [demo_direction ''d1'' [demo_node ''n1'' 1, demo_node ''n2'' 2]]"
  have g: "get demo_store ''s1'' = Some ?session"
    by (simp add: get_def demo_store_def)
  have absent: "\<forall>d\<in>set (s_directions ?session). \<forall>n\<in>set (d_nodes d). n_id n \<noteq> ''n9''"
    by (simp add: demo_session_def demo_direction_def demo_node_def)
  show ?thesis
    using g updateNode_unknown_node [OF g absent, of date2 "[F_status N_error, F_progress 7]"]
    by blast
qed

text \<open>
  C9. \<open>delete\<close> of an id the store does not hold returns false and changes nothing
  (sessions, dirty flags, files). \<open>delete\<close> of an id it holds returns true, the id is gone
  from the map and \<open>list\<close> gives exactly the sessions kept under the other ids; the
  session's file is removed, and a file that is missing changes nothing (the rejection
  of \<open>unlink\<close> is caught).
\<close>

lemma set_AList_delete: "set (AList.delete k al) = {kv \<in> set al. fst kv \<noteq> k}"
  by (induction al) auto

theorem delete_session:
  "(get st sessionId = None \<longrightarrow> delete sessionId (st, files) = (False, st, files))
   \<and> (get st sessionId \<noteq> None \<longrightarrow>
        (\<exists>st'. delete sessionId (st, files) = (True, st', AList.delete (sessionId @ ''.json'') files)
           \<and> get st' sessionId = None
           \<and> set (list_sessions st') = snd ` {kv \<in> set (sessions st). fst kv \<noteq> sessionId}
           \<and> ((\<forall>kv\<in>set (sessions st). s_id (snd kv) = fst kv)
                \<longrightarrow> (\<forall>x\<in>set (list_sessions st'). s_id x \<noteq> sessionId))
           \<and> (sessionId @ ''.json'' \<notin> fst ` set files
                \<longrightarrow> AList.delete (sessionId @ ''.json'') files = files)))"
proof (intro conjI impI)
  assume "get st sessionId = None"
  then show "delete sessionId (st, files) = (False, st, files)"
    by (simp add: delete_def get_def Let_def)
next
  assume present: "get st sessionId \<noteq> None"
  let ?st' = "st\<lparr>sessions := AList.delete sessionId (sessions st),
                  dirty := set_delete sessionId (dirty st)\<rparr>"
  have files: "(case unlink (sessionId @ ''.json'') files of
                  Inr files' \<Rightarrow> (True, ?st', files')
                | Inl err \<Rightarrow> (True, ?st', files))
               = (True, ?st', AList.delete (sessionId @ ''.json'') files)"
    by (simp add: unlink_def delete_id)
  have run: "delete sessionId (st, files) = (True, ?st', AList.delete (sessionId @ ''.json'') files)"
    using present files by (simp add: delete_def get_def Let_def)
  have gone: "get ?st' sessionId = None"
    by (simp add: get_def delete_conv')
  have listed: "set (list_sessions ?st') = snd ` {kv \<in> set (sessions st). fst kv \<noteq> sessionId}"
    by (simp add: list_sessions_def set_AList_delete)
  have ids: "(\<forall>kv\<in>set (sessions st). s_id (snd kv) = fst kv)
                \<longrightarrow> (\<forall>x\<in>set (list_sessions ?st'). s_id x \<noteq> sessionId)"
    unfolding listed by auto
  have missing: "sessionId @ ''.json'' \<notin> fst ` set files
                \<longrightarrow> AList.delete (sessionId @ ''.json'') files = files"
    by (simp add: delete_id)
  show "\<exists>st'. delete sessionId (st, files) = (True, st', AList.delete (sessionId @ ''.json'') files)
           \<and> get st' sessionId = None
           \<and> set (list_sessions st') = snd ` {kv \<in> set (sessions st). fst kv \<noteq> sessionId}
           \<and> ((\<forall>kv\<in>set (sessions st). s_id (snd kv) = fst kv)
                \<longrightarrow> (\<forall>x\<in>set (list_sessions st'). s_id x \<noteq> sessionId))
           \<and> (sessionId @ ''.json'' \<notin> fst ` set files
                \<longrightarrow> AList.delete (sessionId @ ''.json'') files = files)"
    using run gone listed ids missing by blast
qed

theorem delete_session_witness:
  "get demo_store ''zz'' = None
   \<and> delete ''zz'' (demo_store, [(''s1.json'', True)]) = (False, demo_store, [(''s1.json'', True)])
   \<and> get demo_store ''s1'' \<noteq> None
   \<and> (\<exists>st'. delete ''s1'' (demo_store, []) = (True, st', ([] :: (string \<times> bool) list))
         \<and> get st' ''s1'' = None
         \<and> list_sessions st' = [])"
proof -
  have absent: "get demo_store ''zz'' = None"
    by (simp add: get_def demo_store_def)
  have present: "get demo_store ''s1'' \<noteq> None"
    by (simp add: get_def demo_store_def)
  have none_left: "{kv \<in> set (sessions demo_store). fst kv \<noteq> ''s1''} = {}"
    by (auto simp: demo_store_def)
  from delete_session [of demo_store "''zz''" "[(''s1.json'', True)]"] absent
  have first: "delete ''zz'' (demo_store, [(''s1.json'', True)]) = (False, demo_store, [(''s1.json'', True)])"
    by blast
  from delete_session [of demo_store "''s1''" "[] :: (string \<times> bool) list"] present
  obtain st' where "delete ''s1'' (demo_store, []) = (True, st', ([] :: (string \<times> bool) list))"
    and "get st' ''s1'' = None"
    and "set (list_sessions st') = snd ` {kv \<in> set (sessions demo_store). fst kv \<noteq> ''s1''}"
    by auto
  then show ?thesis
    using absent present first none_left by auto
qed

section \<open>Persistence properties\<close>

lemma length_pad [simp]: "length (pad w n) = w"
  by (induction w arbitrary: n) auto

lemma isDigit_digit [simp]: "isDigit (digit d)"
  by (simp add: isDigit_def digit_def)

lemma digitVal_digit [simp]: "digitVal (digit d) = Some (d mod 10)"
  by (simp add: digitVal_def isDigit_def digit_def)

lemma readNat_snoc:
  "readNat (s @ [c]) = (case (readNat s, digitVal c) of (Some a, Some d) \<Rightarrow> Some (10 * a + d) | _ \<Rightarrow> None)"
  by (simp add: readNat_def)

lemma readNat_pad: "readNat (pad w n) = Some (n mod 10 ^ w)"
proof (induction w arbitrary: n)
  case 0
  then show ?case by (simp add: readNat_def)
next
  case (Suc w)
  have "10 * (n div 10 mod 10 ^ w) + n mod 10 = n mod (10 * 10 ^ w)"
    by (metis mod_mult2_eq add.commute)
  then show ?case
    by (simp add: readNat_snoc Suc)
qed

lemma pad4: "pad 4 n = [digit (n div 10 div 10 div 10), digit (n div 10 div 10), digit (n div 10), digit n]"
proof -
  have "pad (Suc (Suc (Suc (Suc 0)))) n
          = [digit (n div 10 div 10 div 10), digit (n div 10 div 10), digit (n div 10), digit n]"
    by simp
  moreover have "(4::nat) = Suc (Suc (Suc (Suc 0)))" by simp
  ultimately show ?thesis by (simp only:)
qed

lemma pad3: "pad 3 n = [digit (n div 10 div 10), digit (n div 10), digit n]"
  by (simp add: numeral_3_eq_3)

lemma pad2: "pad 2 n = [digit (n div 10), digit n]"
  by (simp add: numeral_2_eq_2)

lemma toISOString_fourDigit:
  assumes "0 \<le> year t" "year t \<le> 9999"
  shows "toISOString t =
     pad 4 (nat (year t)) @ ''-'' @ pad 2 (month t) @ ''-'' @ pad 2 (day t)
     @ ''T'' @ pad 2 (hours t) @ '':'' @ pad 2 (minutes t) @ '':'' @ pad 2 (seconds t)
     @ ''.'' @ pad 3 (milliseconds t) @ ''Z''"
  using assms by (simp add: toISOString_def)

lemma toISOString_matches:
  assumes "0 \<le> year t" "year t \<le> 9999"
  shows "matchesPrefix isoPattern (toISOString t)" "matchesPrefix isoFull (toISOString t)"
    "length (toISOString t) = 24"
  using assms by (simp_all add: toISOString_def isoPattern_def isoFull_def pad4 pad3 pad2)

lemma newDate_toISOString:
  assumes "validDate t" "0 \<le> year t" "year t \<le> 9999"
  shows "newDate (toISOString t) = Some t"
proof -
  let ?s = "toISOString t"
  have s: "?s = pad 4 (nat (year t)) @ ''-'' @ pad 2 (month t) @ ''-'' @ pad 2 (day t)
     @ ''T'' @ pad 2 (hours t) @ '':'' @ pad 2 (minutes t) @ '':'' @ pad 2 (seconds t)
     @ ''.'' @ pad 3 (milliseconds t) @ ''Z''"
    by (rule toISOString_fourDigit [OF assms(2,3)])
  have y: "readNat (take 4 ?s) = Some (nat (year t))"
    using assms(2,3) by (simp add: s readNat_pad)
  have mo: "readNat (take 2 (drop 5 ?s)) = Some (month t)"
    using assms(1) by (simp add: s readNat_pad validDate_def)
  have d: "readNat (take 2 (drop 8 ?s)) = Some (day t)"
    using assms(1) by (simp add: s readNat_pad validDate_def daysInMonth_def split: if_splits)
  have h: "readNat (take 2 (drop 11 ?s)) = Some (hours t)"
    using assms(1) by (simp add: s readNat_pad validDate_def)
  have mi: "readNat (take 2 (drop 14 ?s)) = Some (minutes t)"
    using assms(1) by (simp add: s readNat_pad validDate_def)
  have se: "readNat (take 2 (drop 17 ?s)) = Some (seconds t)"
    using assms(1) by (simp add: s readNat_pad validDate_def)
  have ms: "readNat (take 3 (drop 20 ?s)) = Some (milliseconds t)"
    using assms(1) by (simp add: s readNat_pad validDate_def)
  have rebuilt: "\<lparr>year = int (nat (year t)), month = month t, day = day t, hours = hours t,
          minutes = minutes t, seconds = seconds t, milliseconds = milliseconds t\<rparr> = t"
    using assms(2) by simp
  show ?thesis
    unfolding newDate_def y mo d h mi se ms
    using toISOString_matches [OF assms(2,3)] assms(1) rebuilt by (simp add: Let_def)
qed

lemma reviver_roundtrip:
  assumes "\<forall>x\<in>set (stringsOf v). \<not> matchesPrefix isoPattern x"
    and "\<forall>d\<in>set (datesOf v). \<exists>t. d = Some t \<and> validDate t \<and> 0 \<le> year t \<and> year t \<le> 9999"
    and "\<forall>n\<in>set (numbersOf v). \<exists>r. n = Num r"
  shows "JSON_parse (JSON_stringify v) = v"
  using assms
proof (induction v)
  case (VNum n)
  then obtain r where "n = Num r"
    by auto
  then show ?case
    by (simp add: reviver_def)
next
  case (VDate d)
  then obtain t where t: "d = Some t" "validDate t" "0 \<le> year t" "year t \<le> 9999"
    by auto
  then show ?case
    by (simp add: reviver_def toISOString_matches newDate_toISOString)
next
  case (VArr xs)
  then have "map (JSON_parse \<circ> JSON_stringify) xs = xs"
    by (intro map_idI) auto
  then show ?case by (simp add: reviver_def)
next
  case (VObj ms)
  have "map (map_prod id JSON_parse \<circ> map_prod id JSON_stringify) ms = ms"
  proof (intro map_idI)
    fix kv assume kv: "kv \<in> set ms"
    have strs: "\<forall>x\<in>set (stringsOf (snd kv)). \<not> matchesPrefix isoPattern x"
      using VObj.prems(1) kv by auto
    have dts: "\<forall>d\<in>set (datesOf (snd kv)).
                 \<exists>t. d = Some t \<and> validDate t \<and> 0 \<le> year t \<and> year t \<le> 9999"
      using VObj.prems(2) kv by auto
    have nums: "\<forall>n\<in>set (numbersOf (snd kv)). \<exists>r. n = Num r"
      using VObj.prems(3) kv by auto
    have "snd kv \<in> Basic_BNFs.snds kv"
      by (rule snds.intros)
    then have "JSON_parse (JSON_stringify (snd kv)) = snd kv"
      using VObj.IH [OF kv _ strs dts nums] by blast
    then show "(map_prod id JSON_parse \<circ> map_prod id JSON_stringify) kv = kv"
      by (cases kv) simp
  qed
  then show ?case by (simp add: reviver_def)
qed (simp_all add: reviver_def)

lemma endsWith_json: "endsWith (sessionId @ ''.json'') ''.json''"
  by (simp add: endsWith_def)

lemma idOf_js_of_Session: "idOf (js_of_Session s) = Some (s_id s)"
  by (simp add: idOf_def js_of_Session_def)

lemma numbersOf_VArr_map:
  assumes "\<And>x. set (numbersOf (f x)) \<subseteq> range Num"
  shows "set (numbersOf (VArr (map f xs))) \<subseteq> range Num"
  using assms by (induction xs) auto

lemma numbersOf_js_strings [simp]: "numbersOf (js_strings xs) = []"
  by (induction xs) (simp_all add: js_strings_def)

lemma numbersOf_js_record: "set (numbersOf (js_record kvs)) \<subseteq> range Num"
  by (induction kvs) (auto simp: js_record_def js_number_def)

lemma numbersOf_js_nullable:
  assumes "\<And>x. set (numbersOf (f x)) \<subseteq> range Num"
  shows "set (numbersOf (js_nullable f x)) \<subseteq> range Num"
  using assms by (cases x) (simp_all add: js_nullable_def)

lemma numbersOf_js_of_AxisDelta: "set (numbersOf (js_of_AxisDelta a)) \<subseteq> range Num"
  by (simp add: js_of_AxisDelta_def js_number_def)

lemma numbersOf_js_of_SalienceAxis: "set (numbersOf (js_of_SalienceAxis a)) \<subseteq> range Num"
  by (simp add: js_of_SalienceAxis_def js_number_def)

lemma numbersOf_js_of_SalienceProfile: "set (numbersOf (js_of_SalienceProfile p)) \<subseteq> range Num"
  using numbersOf_VArr_map [of js_of_SalienceAxis, OF numbersOf_js_of_SalienceAxis]
  by (simp add: js_of_SalienceProfile_def js_of_Date_def)

lemma numbersOf_js_of_DirectionVector: "set (numbersOf (js_of_DirectionVector v)) \<subseteq> range Num"
  using numbersOf_VArr_map [of js_of_AxisDelta, OF numbersOf_js_of_AxisDelta]
  by (simp add: js_of_DirectionVector_def)

lemma numbersOf_js_of_PromptSkeleton [simp]: "numbersOf (js_of_PromptSkeleton k) = []"
  by (simp add: js_of_PromptSkeleton_def)

lemma numbersOf_js_of_PromptMeta: "set (numbersOf (js_of_PromptMeta m)) \<subseteq> range Num"
  by (cases "pm_duration m"; cases "pm_fps m")
    (simp_all add: js_of_PromptMeta_def js_optional_def js_number_def)

lemma numbersOf_js_of_GenerationNode: "set (numbersOf (js_of_GenerationNode n)) \<subseteq> range Num"
proof -
  have str: "numbersOf (js_nullable VStr x) = []" for x
    by (cases x) (simp_all add: js_nullable_def)
  have date: "numbersOf (js_nullable js_of_Date x) = []" for x
    by (cases x) (simp_all add: js_nullable_def js_of_Date_def)
  have opt: "concat (map (\<lambda>kv. numbersOf (snd kv)) (js_optional key VStr x)) = []" for key x
    by (cases x) (simp_all add: js_optional_def)
  show ?thesis
    using numbersOf_VArr_map [of js_of_AxisDelta, OF numbersOf_js_of_AxisDelta]
      numbersOf_js_nullable [of js_of_PromptMeta, OF numbersOf_js_of_PromptMeta]
    by (simp add: js_of_GenerationNode_def js_number_def js_of_Date_def str date opt)
qed

lemma numbersOf_js_of_Direction: "set (numbersOf (js_of_Direction d)) \<subseteq> range Num"
  using numbersOf_VArr_map [of js_of_GenerationNode, OF numbersOf_js_of_GenerationNode]
    numbersOf_js_of_DirectionVector
  by (simp add: js_of_Direction_def js_number_def js_of_Date_def)

lemma numbersOf_js_of_PreferenceState: "set (numbersOf (js_of_PreferenceState p)) \<subseteq> range Num"
  using numbersOf_js_record
  by (simp add: js_of_PreferenceState_def js_number_def js_of_Date_def)

lemma js_of_Session_numbers: "\<forall>n\<in>set (numbersOf (js_of_Session s)). \<exists>r. n = Num r"
proof -
  have "set (numbersOf (js_of_Session s)) \<subseteq> range Num"
    using numbersOf_VArr_map [of js_of_Direction, OF numbersOf_js_of_Direction]
      numbersOf_js_nullable [of js_of_SalienceProfile, OF numbersOf_js_of_SalienceProfile]
      numbersOf_js_of_PreferenceState
    by (simp add: js_of_Session_def js_of_Date_def)
  thus ?thesis
    by auto
qed

text \<open>
  C8, amended. \<open>v\<close> is a session as the store holds it at run time: an object with a
  string \<open>id\<close>. When no string in it starts like an ISO date-time (the reviver's
  pattern), its dates are instants with a year in 0..9999, and its numbers are finite and
  not negative zero, the document \<open>JSON.stringify\<close> writes for it parses back to \<open>v\<close>
  itself, every Date a Date again, and loading a directory that holds this document in a
  fresh process gives exactly \<open>v\<close>, under its id. The document is the one \<open>flushDirty\<close>
  writes for the session.
\<close>

theorem persist_reload:
  assumes "idOf v = Some k"
    and "\<forall>x\<in>set (stringsOf v). \<not> matchesPrefix isoPattern x"
    and "\<forall>d\<in>set (datesOf v). \<exists>t. d = Some t \<and> validDate t \<and> 0 \<le> year t \<and> year t \<le> 9999"
    and "\<forall>n\<in>set (numbersOf v). \<exists>r. n = Num r"
  shows "JSON_parse (JSON_stringify v) = v
         \<and> loadAll [(sessionId @ ''.json'', JSON_stringify v)] = [(k, v)]
         \<and> (\<forall>st s. get st sessionId = Some s \<and> dirty st = [sessionId] \<and> js_of_Session s = v
               \<longrightarrow> flushDirty True (\<lambda>path. True) (st, [])
                     = Inr (st\<lparr>dirty := []\<rparr>, [(sessionId @ ''.json'', JSON_stringify v)]))"
proof -
  have rt: "JSON_parse (JSON_stringify v) = v"
    by (rule reviver_roundtrip [OF assms(2,3,4)])
  have ld: "loadAll [(sessionId @ ''.json'', JSON_stringify v)] = [(k, v)]"
    by (simp add: loadAll_def endsWith_json rt assms(1) Let_def)
  have fl: "flushDirty True (\<lambda>path. True) (st, [])
              = Inr (st\<lparr>dirty := []\<rparr>, [(sessionId @ ''.json'', JSON_stringify v)])"
    if "get st sessionId = Some s" "dirty st = [sessionId]" "js_of_Session s = v" for st s
    using that by (auto simp: flushDirty_def get_def Let_def)
  show ?thesis
    using rt ld fl by blast
qed

text \<open>
  C8, as the claim states it, fails: the reviver turns every string that starts like a
  date-time into a Date, whatever field holds it. A session whose caption is the text
  \<open>2024-01-01T10:00:00.000Z\<close> is reloaded with a Date in \<open>caption\<close>.
\<close>

theorem persist_reload_caption_counterexample: "member (js_of_Session dated_caption_session) ''caption'' = Some (VStr ''2024-01-01T10:00:00.000Z'')
  \<and> member (JSON_parse (JSON_stringify (js_of_Session dated_caption_session))) ''caption''
      = Some (VDate (Some \<lparr>year = 2024, month = 1, day = 1, hours = 10, minutes = 0, seconds = 0, milliseconds = 0\<rparr>))"
  by (simp add: member_def js_of_Session_def dated_caption_session_def demo_session_def reviver_def
     isoPattern_def isoFull_def newDate_def isDigit_def readNat_def digitVal_def validDate_def daysInMonth_def
     js_strings_def js_nullable_def)

text \<open>
  The numbers have to be restricted as well: a node whose \<open>depth\<close> is \<open>-Infinity\<close>
  (the request body \<open>{"depth": -1e999}\<close> parses to it and passes the test
  \<open>actualDepth > 5\<close>) is written with \<open>null\<close> for its depth and reloaded with null.
\<close>

lemma depth_not_finite_reloaded_null:
  "member unbounded_depth_node ''depth'' = Some (VNum NegInfinity)
   \<and> member (JSON_parse (JSON_stringify unbounded_depth_node)) ''depth'' = Some VNull"
  by (simp add: member_def unbounded_depth_node_def setMember_def js_of_GenerationNode_def
      demo_node_def reviver_def js_optional_def)

theorem persist_reload_witness:
  "JSON_parse (JSON_stringify (js_of_Session w_session)) = js_of_Session w_session
   \<and> loadAll [(''s1.json'', JSON_stringify (js_of_Session w_session))]
       = [(''s1'', js_of_Session w_session)]
   \<and> flushDirty True (\<lambda>path. True) (demo_store\<lparr>dirty := [''s1'']\<rparr>, [])
       = Inr (demo_store\<lparr>dirty := []\<rparr>,
              [(''s1.json'', JSON_stringify (js_of_Session w_session))])"
proof -
  have g: "get (demo_store\<lparr>dirty := [''s1'']\<rparr>) ''s1'' = Some w_session"
    by (simp add: get_def demo_store_def w_session_def)
  have d: "dirty (demo_store\<lparr>dirty := [''s1'']\<rparr>) = [''s1'']"
    by simp
  have i: "idOf (js_of_Session w_session) = Some ''s1''"
    by (simp add: idOf_js_of_Session w_session_def demo_session_def)
  have strs: "\<forall>x\<in>set (stringsOf (js_of_Session w_session)). \<not> matchesPrefix isoPattern x"
    by (simp add: w_session_def js_of_Session_def demo_session_def demo_direction_def demo_node_def
        demo_profile_def demo_vector_def demo_skeleton_def js_of_Direction_def
        js_of_GenerationNode_def js_of_SalienceProfile_def js_of_SalienceAxis_def
        js_of_DirectionVector_def js_of_PromptSkeleton_def js_of_PreferenceState_def
        js_of_AxisDelta_def js_of_Date_def js_strings_def js_record_def js_nullable_def
        js_optional_def js_number_def isoPattern_def isDigit_def)
  have dts: "\<forall>d\<in>set (datesOf (js_of_Session w_session)).
           \<exists>t. d = Some t \<and> validDate t \<and> 0 \<le> year t \<and> year t \<le> 9999"
    by (simp add: w_session_def js_of_Session_def demo_session_def demo_direction_def demo_node_def
        demo_profile_def demo_vector_def demo_skeleton_def js_of_Direction_def
        js_of_GenerationNode_def js_of_SalienceProfile_def js_of_SalienceAxis_def
        js_of_DirectionVector_def js_of_PromptSkeleton_def js_of_PreferenceState_def
        js_of_AxisDelta_def js_of_Date_def js_strings_def js_record_def js_nullable_def
        js_optional_def js_number_def date1_def validDate_def daysInMonth_def)
  have nums: "\<forall>n\<in>set (numbersOf (js_of_Session w_session)). \<exists>r. n = Num r"
    by (rule js_of_Session_numbers)
  have upd: "(demo_store\<lparr>dirty := [''s1'']\<rparr>)\<lparr>dirty := []\<rparr> = demo_store\<lparr>dirty := []\<rparr>"
    by simp
  show ?thesis
    using persist_reload [OF i strs dts nums, of "''s1''"] g d upd by auto
qed

lemma flushLoop_sessions: "sessions (fst (flushLoop ok ids w)) = sessions (fst w)"
  by (induction ids arbitrary: w) (auto simp: Let_def split: option.splits)

lemma flushLoop_dirty:
  "set (dirty (fst (flushLoop ok ids w)))
     = set (dirty (fst w))
       \<union> {sessionId \<in> set ids. map_of (sessions (fst w)) sessionId \<noteq> None \<and> \<not> ok (sessionId @ ''.json'')}"
proof (induction ids arbitrary: w)
  case Nil
  then show ?case by simp
next
  case (Cons sessionId rest)
  show ?case
    by (cases "map_of (sessions (fst w)) sessionId")
       (auto simp: Cons.IH Let_def set_add_def)
qed

lemma flushLoop_other_file:
  assumes "\<forall>sessionId\<in>set ids. path \<noteq> sessionId @ ''.json''"
  shows "map_of (snd (flushLoop ok ids w)) path = map_of (snd w) path"
  using assms
proof (induction ids arbitrary: w)
  case Nil
  then show ?case by simp
next
  case (Cons sessionId rest)
  then show ?case
    by (cases "map_of (sessions (fst w)) sessionId") (auto simp: Let_def update_conv')
qed

lemma flushLoop_file:
  assumes "sessionId \<in> set ids" and "map_of (sessions (fst w)) sessionId = Some session"
  shows "map_of (snd (flushLoop ok ids w)) (sessionId @ ''.json'')
           = (if ok (sessionId @ ''.json'') then Some (JSON_stringify (js_of_Session session))
              else map_of (snd w) (sessionId @ ''.json''))"
  using assms
proof (induction ids arbitrary: w)
  case Nil
  then show ?case by simp
next
  case (Cons x rest)
  let ?w' = "(case map_of (sessions (fst w)) x of
          None \<Rightarrow> w
        | Some session \<Rightarrow>
            let filePath = x @ ''.json'' in
            if ok filePath
            then (fst w, AList.update filePath (JSON_stringify (js_of_Session session)) (snd w))
            else ((fst w)\<lparr>dirty := set_add x (dirty (fst w))\<rparr>, snd w))"
  have step: "flushLoop ok (x # rest) w = flushLoop ok rest ?w'"
    by simp
  have sess: "sessions (fst ?w') = sessions (fst w)"
    by (auto simp: Let_def split: option.splits)
  show ?case
  proof (cases "sessionId \<in> set rest")
    case True
    have "map_of (snd (flushLoop ok rest ?w')) (sessionId @ ''.json'')
           = (if ok (sessionId @ ''.json'') then Some (JSON_stringify (js_of_Session session))
              else map_of (snd ?w') (sessionId @ ''.json''))"
      using Cons.IH [OF True, of ?w'] Cons.prems(2) sess by simp
    moreover have "\<not> ok (sessionId @ ''.json'')
        \<Longrightarrow> map_of (snd ?w') (sessionId @ ''.json'') = map_of (snd w) (sessionId @ ''.json'')"
      by (auto simp: Let_def update_conv' split: option.splits)
    ultimately show ?thesis
      unfolding step by simp
  next
    case False
    then have x: "x = sessionId"
      using Cons.prems(1) by simp
    have "map_of (snd (flushLoop ok rest ?w')) (sessionId @ ''.json'') = map_of (snd ?w') (sessionId @ ''.json'')"
      using False by (intro flushLoop_other_file) auto
    moreover have "map_of (snd ?w') (sessionId @ ''.json'')
           = (if ok (sessionId @ ''.json'') then Some (JSON_stringify (js_of_Session session))
              else map_of (snd w) (sessionId @ ''.json''))"
      using Cons.prems(2) by (simp add: x Let_def update_conv')
    ultimately show ?thesis
      unfolding step by simp
  qed
qed

text \<open>
  C6. One flush cycle. When \<open>mkdir\<close> rejects, the flush rejects and no flag is touched.
  Otherwise the sessions in memory are as before (a failed write changes nothing there);
  every dirty session whose write succeeds has its own file, holding the session's
  document, and is clean afterwards; every dirty session whose write fails is dirty
  afterwards, its file as it was; no session becomes dirty by flushing and no other file
  changes. So a session is clean after the cycle only when its write succeeded. The
  mutators (\<open>update\<close> and the functions built on it) do not read or write the files at
  all: they only add the id to \<open>dirty\<close>.
\<close>

theorem flushDirty_at_least_once:
  "(dirty st \<noteq> [] \<and> \<not> mkdirOk \<longrightarrow> flushDirty mkdirOk writeOk (st, files) = Inl EIO)
   \<and> (dirty st = [] \<or> mkdirOk \<longrightarrow>
        (\<exists>st' files'. flushDirty mkdirOk writeOk (st, files) = Inr (st', files')
           \<and> sessions st' = sessions st
           \<and> set (dirty st') \<subseteq> set (dirty st)
           \<and> (\<forall>sessionId\<in>set (dirty st). \<forall>session. get st sessionId = Some session \<longrightarrow>
                (if writeOk (sessionId @ ''.json'')
                 then map_of files' (sessionId @ ''.json'') = Some (JSON_stringify (js_of_Session session))
                      \<and> sessionId \<notin> set (dirty st')
                 else map_of files' (sessionId @ ''.json'') = map_of files (sessionId @ ''.json'')
                      \<and> sessionId \<in> set (dirty st')))
           \<and> (\<forall>path. (\<forall>sessionId\<in>set (dirty st). path \<noteq> sessionId @ ''.json'')
                \<longrightarrow> map_of files' path = map_of files path)))"
proof (intro conjI impI)
  assume "dirty st \<noteq> [] \<and> \<not> mkdirOk"
  then show "flushDirty mkdirOk writeOk (st, files) = Inl EIO"
    by (simp add: flushDirty_def)
next
  assume ok: "dirty st = [] \<or> mkdirOk"
  show "\<exists>st' files'. flushDirty mkdirOk writeOk (st, files) = Inr (st', files')
           \<and> sessions st' = sessions st
           \<and> set (dirty st') \<subseteq> set (dirty st)
           \<and> (\<forall>sessionId\<in>set (dirty st). \<forall>session. get st sessionId = Some session \<longrightarrow>
                (if writeOk (sessionId @ ''.json'')
                 then map_of files' (sessionId @ ''.json'') = Some (JSON_stringify (js_of_Session session))
                      \<and> sessionId \<notin> set (dirty st')
                 else map_of files' (sessionId @ ''.json'') = map_of files (sessionId @ ''.json'')
                      \<and> sessionId \<in> set (dirty st')))
           \<and> (\<forall>path. (\<forall>sessionId\<in>set (dirty st). path \<noteq> sessionId @ ''.json'')
                \<longrightarrow> map_of files' path = map_of files path)"
  proof (cases "dirty st = []")
    case True
    then have "flushDirty mkdirOk writeOk (st, files) = Inr (st, files)"
      by (simp add: flushDirty_def)
    then show ?thesis
      using True by simp
  next
    case False
    let ?w = "(st\<lparr>dirty := []\<rparr>, files)"
    let ?r = "flushLoop writeOk (dirty st) ?w"
    have run: "flushDirty mkdirOk writeOk (st, files) = Inr (fst ?r, snd ?r)"
      using False ok by (simp add: flushDirty_def Let_def)
    have s: "sessions (fst ?r) = sessions st"
      by (simp add: flushLoop_sessions)
    have d: "set (dirty (fst ?r))
               = {sessionId \<in> set (dirty st). map_of (sessions st) sessionId \<noteq> None
                    \<and> \<not> writeOk (sessionId @ ''.json'')}"
      by (simp add: flushLoop_dirty)
    have f: "\<And>sessionId session. sessionId \<in> set (dirty st) \<Longrightarrow> get st sessionId = Some session
               \<Longrightarrow> map_of (snd ?r) (sessionId @ ''.json'')
                     = (if writeOk (sessionId @ ''.json'')
                        then Some (JSON_stringify (js_of_Session session))
                        else map_of files (sessionId @ ''.json''))"
      using flushLoop_file [of _ "dirty st" ?w _ writeOk] by (simp add: get_def)
    have o: "\<And>path. (\<forall>sessionId\<in>set (dirty st). path \<noteq> sessionId @ ''.json'')
               \<Longrightarrow> map_of (snd ?r) path = map_of files path"
      using flushLoop_other_file [of "dirty st" _ writeOk ?w] by simp
    have each: "\<forall>sessionId\<in>set (dirty st). \<forall>session. get st sessionId = Some session \<longrightarrow>
                (if writeOk (sessionId @ ''.json'')
                 then map_of (snd ?r) (sessionId @ ''.json'') = Some (JSON_stringify (js_of_Session session))
                      \<and> sessionId \<notin> set (dirty (fst ?r))
                 else map_of (snd ?r) (sessionId @ ''.json'') = map_of files (sessionId @ ''.json'')
                      \<and> sessionId \<in> set (dirty (fst ?r)))"
      using f by (auto simp: d get_def)
    have sub: "set (dirty (fst ?r)) \<subseteq> set (dirty st)"
      unfolding d by blast
    show ?thesis
      using run s sub each o by blast
  qed
qed


theorem flushDirty_at_least_once_witness:
  "flushDirty False (\<lambda>path. True) (two_dirty_store, []) = Inl EIO
   \<and> (\<exists>st' files'. flushDirty True (\<lambda>path. path = ''s1.json'') (two_dirty_store, []) = Inr (st', files')
         \<and> sessions st' = sessions two_dirty_store
         \<and> map_of files' ''s1.json'' = Some (JSON_stringify (js_of_Session (demo_session ''s1'' S_idle [])))
         \<and> ''s1'' \<notin> set (dirty st')
         \<and> map_of files' ''s2.json'' = None
         \<and> ''s2'' \<in> set (dirty st'))"
proof -
  have d: "dirty two_dirty_store = [''s1'', ''s2'']"
    by (simp add: two_dirty_store_def)
  have g1: "get two_dirty_store ''s1'' = Some (demo_session ''s1'' S_idle [])"
    by (simp add: get_def two_dirty_store_def)
  have g2: "get two_dirty_store ''s2'' = Some (demo_session ''s2'' S_idle [])"
    by (simp add: get_def two_dirty_store_def)
  have first: "flushDirty False (\<lambda>path. True) (two_dirty_store, []) = Inl EIO"
    using flushDirty_at_least_once [of two_dirty_store False "\<lambda>path. True" "[]"] d by simp
  from flushDirty_at_least_once [of two_dirty_store True "\<lambda>path. path = ''s1.json''" "[]"]
  obtain st' files' where run: "flushDirty True (\<lambda>path. path = ''s1.json'') (two_dirty_store, []) = Inr (st', files')"
    and mem: "sessions st' = sessions two_dirty_store"
    and each: "\<forall>sessionId\<in>set (dirty two_dirty_store). \<forall>session.
                 get two_dirty_store sessionId = Some session \<longrightarrow>
                (if sessionId @ ''.json'' = ''s1.json''
                 then map_of files' (sessionId @ ''.json'') = Some (JSON_stringify (js_of_Session session))
                      \<and> sessionId \<notin> set (dirty st')
                 else map_of files' (sessionId @ ''.json'') = map_of [] (sessionId @ ''.json'')
                      \<and> sessionId \<in> set (dirty st'))"
    by auto
  have "map_of files' ''s1.json'' = Some (JSON_stringify (js_of_Session (demo_session ''s1'' S_idle [])))
         \<and> ''s1'' \<notin> set (dirty st')"
    using each g1 d by force
  moreover have "map_of files' ''s2.json'' = None \<and> ''s2'' \<in> set (dirty st')"
    using each g2 d by force
  ultimately show ?thesis
    using first run mem by blast
qed

section \<open>The generate route and the depth of a new node\<close>

lemma find_map_same_id:
  assumes "\<And>d. d_id (f d) = d_id d"
  shows "find (\<lambda>d. d_id d = x) (map f ds) = map_option f (find (\<lambda>d. d_id d = x) ds)"
  by (induction ds) (auto simp: assms)

lemma get_update:
  "get (snd (update now sessionId updates st)) k
     = (if k = sessionId
        then map_option (\<lambda>s. (spreadSession s updates)\<lparr>s_updatedAt := now\<rparr>) (get st sessionId)
        else get st k)"
  by (auto simp: update_def get_def Let_def update_conv' split: option.splits)

lemma nodeDepths_updateNode:
  assumes "\<And>n. n_id (spreadNode n updates) = n_id n" "\<And>n. n_depth (spreadNode n updates) = n_depth n"
  shows "nodeDepths (snd (updateNode now sessionId nodeId updates st)) k directionId
           = nodeDepths st k directionId"
proof (cases "get st sessionId")
  case None
  then show ?thesis by (simp add: updateNode_def)
next
  case (Some session)
  let ?h = "\<lambda>n. if n_id n = nodeId then spreadNode n updates else n"
  let ?g = "\<lambda>d. d\<lparr>d_nodes := map ?h (d_nodes d)\<rparr>"
  have run: "updateNode now sessionId nodeId updates st
               = update now sessionId [G_directions (map ?g (s_directions session))] st"
    using Some by (simp add: updateNode_def Let_def)
  have h: "\<And>n. (n_id (?h n), n_depth (?h n)) = (n_id n, n_depth n)"
    by (simp add: assms)
  have nodes: "\<And>d. map (\<lambda>n. (n_id n, n_depth n)) (d_nodes (?g d)) = map (\<lambda>n. (n_id n, n_depth n)) (d_nodes d)"
    using h by (simp add: comp_def)
  have found: "find (\<lambda>d. d_id d = directionId) (map ?g (s_directions session))
                 = map_option ?g (find (\<lambda>d. d_id d = directionId) (s_directions session))"
    by (rule find_map_same_id) simp
  show ?thesis
  proof (cases "k = sessionId")
    case True
    then show ?thesis
      using Some nodes
      by (cases "find (\<lambda>d. d_id d = directionId) (s_directions session)")
         (simp_all add: nodeDepths_def getDirection_def run get_update spreadSession_def found assms)
  next
    case False
    then show ?thesis
      by (simp add: nodeDepths_def getDirection_def run get_update)
  qed
qed

lemma nodeDepths_addNode:
  assumes "get st sessionId = Some session"
    and "find (\<lambda>d. d_id d = directionId) (s_directions session) = Some direction"
  shows "nodeDepths (snd (addNode now sessionId directionId node st)) sessionId directionId
           = nodeDepths st sessionId directionId @ [(n_id node, n_depth node)]"
proof -
  let ?g = "\<lambda>d. if d_id d = directionId then d\<lparr>d_nodes := d_nodes d @ [node]\<rparr> else d"
  have run: "addNode now sessionId directionId node st
               = update now sessionId [G_directions (map ?g (s_directions session))] st"
    using assms(1) by (simp add: addNode_def Let_def)
  have found: "find (\<lambda>d. d_id d = directionId) (map ?g (s_directions session))
                 = map_option ?g (find (\<lambda>d. d_id d = directionId) (s_directions session))"
    by (rule find_map_same_id) simp
  have "d_id direction = directionId"
    using assms(2) by (auto simp: find_Some_iff)
  then show ?thesis
    using assms
    by (simp add: nodeDepths_def getDirection_def run get_update spreadSession_def found)
qed

lemma nodeDepths_setState:
  "nodeDepths (snd (setState now sessionId state st)) k directionId = nodeDepths st k directionId"
  by (cases "get st sessionId")
     (auto simp: nodeDepths_def getDirection_def setState_def get_update spreadSession_def
           split: option.splits)

lemma emitSessionEvent_frame [simp]:
  "sessionStore (snd (emitSessionEvent now sid ty pl a)) = sessionStore a"
  "jobQueue (snd (emitSessionEvent now sid ty pl a)) = jobQueue a"
  "isProcessing (snd (emitSessionEvent now sid ty pl a)) = isProcessing a"
  "loops (snd (emitSessionEvent now sid ty pl a)) = loops a"
  "finished (snd (emitSessionEvent now sid ty pl a)) = finished a"
  "tickers (snd (emitSessionEvent now sid ty pl a)) = tickers a"
  "errorListeners (snd (emitSessionEvent now sid ty pl a)) = errorListeners a"
  "OPENAI_API_KEY (snd (emitSessionEvent now sid ty pl a)) = OPENAI_API_KEY a"
  by (simp_all add: emitSessionEvent_def)

lemma emitProgress_frame [simp]:
  "sessionStore (emitProgress now sid nid did p stg msg a) = sessionStore a"
  "jobQueue (emitProgress now sid nid did p stg msg a) = jobQueue a"
  "isProcessing (emitProgress now sid nid did p stg msg a) = isProcessing a"
  "loops (emitProgress now sid nid did p stg msg a) = loops a"
  "finished (emitProgress now sid nid did p stg msg a) = finished a"
  "tickers (emitProgress now sid nid did p stg msg a) = tickers a"
  "errorListeners (emitProgress now sid nid did p stg msg a) = errorListeners a"
  "OPENAI_API_KEY (emitProgress now sid nid did p stg msg a) = OPENAI_API_KEY a"
  by (simp_all add: emitProgress_def)

lemma emitComplete_frame [simp]:
  "sessionStore (emitComplete now sid nid did u th ex a) = sessionStore a"
  "jobQueue (emitComplete now sid nid did u th ex a) = jobQueue a"
  "isProcessing (emitComplete now sid nid did u th ex a) = isProcessing a"
  "loops (emitComplete now sid nid did u th ex a) = loops a"
  "finished (emitComplete now sid nid did u th ex a) = finished a"
  "tickers (emitComplete now sid nid did u th ex a) = tickers a"
  "errorListeners (emitComplete now sid nid did u th ex a) = errorListeners a"
  "OPENAI_API_KEY (emitComplete now sid nid did u th ex a) = OPENAI_API_KEY a"
  by (simp_all add: emitComplete_def)

lemma emitError_frame [simp]:
  "sessionStore (snd (emitError now sid nido msg a)) = sessionStore a"
  "jobQueue (snd (emitError now sid nido msg a)) = jobQueue a"
  "isProcessing (snd (emitError now sid nido msg a)) = isProcessing a"
  "loops (snd (emitError now sid nido msg a)) = loops a"
  "finished (snd (emitError now sid nido msg a)) = finished a"
  "tickers (snd (emitError now sid nido msg a)) = tickers a"
  "errorListeners (snd (emitError now sid nido msg a)) = errorListeners a"
  "OPENAI_API_KEY (snd (emitError now sid nido msg a)) = OPENAI_API_KEY a"
  by (simp_all add: emitError_def)

lemma emitNodeCreated_frame [simp]:
  "sessionStore (emitNodeCreated now sid nid did dp a) = sessionStore a"
  "jobQueue (emitNodeCreated now sid nid did dp a) = jobQueue a"
  "isProcessing (emitNodeCreated now sid nid did dp a) = isProcessing a"
  "loops (emitNodeCreated now sid nid did dp a) = loops a"
  "finished (emitNodeCreated now sid nid did dp a) = finished a"
  "tickers (emitNodeCreated now sid nid did dp a) = tickers a"
  "errorListeners (emitNodeCreated now sid nid did dp a) = errorListeners a"
  "OPENAI_API_KEY (emitNodeCreated now sid nid did dp a) = OPENAI_API_KEY a"
  by (simp_all add: emitNodeCreated_def)

lemma storeUpdateNode_frame [simp]:
  "sessionStore (storeUpdateNode now sid nid ups a) = snd (updateNode now sid nid ups (sessionStore a))"
  "jobQueue (storeUpdateNode now sid nid ups a) = jobQueue a"
  "isProcessing (storeUpdateNode now sid nid ups a) = isProcessing a"
  "loops (storeUpdateNode now sid nid ups a) = loops a"
  "finished (storeUpdateNode now sid nid ups a) = finished a"
  "tickers (storeUpdateNode now sid nid ups a) = tickers a"
  "streamed (storeUpdateNode now sid nid ups a) = streamed a"
  "errorListeners (storeUpdateNode now sid nid ups a) = errorListeners a"
  "OPENAI_API_KEY (storeUpdateNode now sid nid ups a) = OPENAI_API_KEY a"
  by (simp_all add: storeUpdateNode_def)

lemma processJob_start_depths:
  "nodeDepths (sessionStore (snd (processJob_start now job a))) k did = nodeDepths (sessionStore a) k did"
  by (simp add: processJob_start_def Let_def nodeDepths_updateNode spreadNode_def split: option.splits)

lemma failJob_depths:
  "nodeDepths (sessionStore (snd (failJob now job msg a))) k did = nodeDepths (sessionStore a) k did"
  by (simp add: failJob_def Let_def nodeDepths_updateNode spreadNode_def)

lemma drain_depths:
  "nodeDepths (sessionStore (snd (drain now jobs a))) k did = nodeDepths (sessionStore a) k did"
proof (induction jobs arbitrary: a)
  case Nil
  then show ?case by simp
next
  case (Cons job rest)
  show ?case
    by (simp add: Let_def Cons.IH processJob_start_depths failJob_depths completeJob_def
             split: outcome.splits option.splits)
qed

lemma processQueue_depths:
  "nodeDepths (sessionStore (processQueue now a)) k did = nodeDepths (sessionStore a) k did"
  by (simp add: processQueue_def Let_def drain_depths split: option.splits)

lemma enqueueGeneration_depths:
  assumes "enqueueGeneration now nodeId jobId sessionId directionId parent media depth a = Inr a'"
  shows "nodeDepths (sessionStore a') sessionId directionId
           = nodeDepths (sessionStore a) sessionId directionId @ [(nodeId, depth)]"
  using assms
  by (auto simp: enqueueGeneration_def Let_def processQueue_depths nodeDepths_addNode
           split: option.splits if_splits)

text \<open>
  C1, amended. A request the route rejects leaves the whole state as it was: no node, no
  store write, no event, no job. A request that names an existing direction of an
  analysed session and whose effective depth is above 5 is rejected with status 400.
  A request that is accepted has an effective depth of at most 5, and the direction gets
  exactly one more node, last in its list, with the request's node id and that depth. The
  effective depth is the body's \<open>depth\<close> when the body has one, and the number of nodes
  already in the direction plus 1 only when it has none.
\<close>

theorem POST_generate_depth:
  "(\<forall>status message a'. POST_generate now nodeId jobId sessionId body a = (Rejected status message, a')
       \<longrightarrow> a' = a)
   \<and> (\<forall>session directionId direction.
         b_directionId body = Some directionId \<and> directionId \<noteq> []
         \<and> get (sessionStore a) sessionId = Some session \<and> s_salienceProfile session \<noteq> None
         \<and> find (\<lambda>d. d_id d = directionId) (s_directions session) = Some direction
         \<and> actualDepth (b_depth body) direction > 5
       \<longrightarrow> POST_generate now nodeId jobId sessionId body a = (Rejected 400 ''Maximum depth reached'', a))
   \<and> (\<forall>n j directionId depth mediaType a'.
         POST_generate now nodeId jobId sessionId body a = (Started n j directionId depth mediaType, a')
       \<longrightarrow> (\<exists>direction. getDirection (sessionStore a) sessionId directionId = Some direction
              \<and> depth = actualDepth (b_depth body) direction \<and> depth \<le> 5
              \<and> (b_depth body = None \<longrightarrow> depth = int (length (d_nodes direction)) + 1)
              \<and> nodeDepths (sessionStore a') sessionId directionId
                   = nodeDepths (sessionStore a) sessionId directionId @ [(nodeId, depth)]))"
proof (intro conjI allI impI)
  fix status message a'
  assume "POST_generate now nodeId jobId sessionId body a = (Rejected status message, a')"
  then show "a' = a"
    by (auto simp: POST_generate_def Let_def split: option.splits if_splits sum.splits)
next
  fix session directionId direction
  assume "b_directionId body = Some directionId \<and> directionId \<noteq> []
         \<and> get (sessionStore a) sessionId = Some session \<and> s_salienceProfile session \<noteq> None
         \<and> find (\<lambda>d. d_id d = directionId) (s_directions session) = Some direction
         \<and> actualDepth (b_depth body) direction > 5"
  then show "POST_generate now nodeId jobId sessionId body a = (Rejected 400 ''Maximum depth reached'', a)"
    by (auto simp: POST_generate_def Let_def)
next
  fix n j directionId depth mediaType a'
  assume started: "POST_generate now nodeId jobId sessionId body a = (Started n j directionId depth mediaType, a')"
  then obtain session direction a1 where
    s: "get (sessionStore a) sessionId = Some session"
    and d: "find (\<lambda>d. d_id d = directionId) (s_directions session) = Some direction"
    and dep: "depth = actualDepth (b_depth body) direction" "depth \<le> 5"
    and enq: "enqueueGeneration now nodeId jobId sessionId directionId (b_parentNodeId body) mediaType depth a = Inr a1"
    and a': "a' = a1\<lparr>sessionStore := snd (setState now sessionId S_generating (sessionStore a1))\<rparr>"
    by (auto simp: POST_generate_def Let_def split: option.splits if_splits sum.splits)
  have gd: "getDirection (sessionStore a) sessionId directionId = Some direction"
    using s d by (simp add: getDirection_def)
  have "nodeDepths (sessionStore a') sessionId directionId
          = nodeDepths (sessionStore a) sessionId directionId @ [(nodeId, depth)]"
    by (simp add: a' nodeDepths_setState enqueueGeneration_depths [OF enq])
  then show "\<exists>direction. getDirection (sessionStore a) sessionId directionId = Some direction
              \<and> depth = actualDepth (b_depth body) direction \<and> depth \<le> 5
              \<and> (b_depth body = None \<longrightarrow> depth = int (length (d_nodes direction)) + 1)
              \<and> nodeDepths (sessionStore a') sessionId directionId
                   = nodeDepths (sessionStore a) sessionId directionId @ [(nodeId, depth)]"
    using gd dep by (auto simp: actualDepth_def)
qed


lemma demo_app_facts:
  "get (sessionStore demo_app) ''s1'' = Some w_session"
  "find (\<lambda>d. d_id d = ''d1'') (s_directions w_session)
     = Some (demo_direction ''d1'' [demo_node ''n1'' 1, demo_node ''n2'' 2])"
  "s_salienceProfile w_session = Some demo_profile"
  "nodeDepths (sessionStore demo_app) ''s1'' ''d1'' = [(''n1'', 1), (''n2'', 2)]"
  "isProcessing demo_app = False"
  "s_directions w_session \<noteq> []"
  by (simp_all add: demo_app_def idle_def demo_store_def get_def w_session_def demo_session_def
      demo_direction_def demo_node_def nodeDepths_def getDirection_def)

lemma demo_POST_started:
  "depth \<le> 5 \<Longrightarrow> fst (POST_generate date2 ''n3'' ''j3'' ''s1'' (demo_body (Some depth)) demo_app)
     = Started ''n3'' ''j3'' ''d1'' depth Image"
  "fst (POST_generate date2 ''n3'' ''j3'' ''s1'' (demo_body None) demo_app)
     = Started ''n3'' ''j3'' ''d1'' 3 Image"
  by (simp_all add: POST_generate_def demo_body_def demo_app_facts actualDepth_def Let_def
      enqueueGeneration_def demo_direction_def)

theorem POST_generate_depth_witness:
  "POST_generate date2 ''n3'' ''j3'' ''s1'' (demo_body (Some 6)) demo_app
     = (Rejected 400 ''Maximum depth reached'', demo_app)
   \<and> (\<exists>a'. POST_generate date2 ''n3'' ''j3'' ''s1'' (demo_body None) demo_app
               = (Started ''n3'' ''j3'' ''d1'' 3 Image, a')
         \<and> nodeDepths (sessionStore a') ''s1'' ''d1'' = [(''n1'', 1), (''n2'', 2), (''n3'', 3)])"
proof -
  have deep: "actualDepth (b_depth (demo_body (Some 6)))
                (demo_direction ''d1'' [demo_node ''n1'' 1, demo_node ''n2'' 2]) > 5"
    by (simp add: actualDepth_def demo_body_def)
  have first: "POST_generate date2 ''n3'' ''j3'' ''s1'' (demo_body (Some 6)) demo_app
     = (Rejected 400 ''Maximum depth reached'', demo_app)"
    using POST_generate_depth [of date2 "''n3''" "''j3''" "''s1''" "demo_body (Some 6)" demo_app]
      demo_app_facts deep
    by (simp add: demo_body_def)
  obtain a' where run: "POST_generate date2 ''n3'' ''j3'' ''s1'' (demo_body None) demo_app
               = (Started ''n3'' ''j3'' ''d1'' 3 Image, a')"
    using demo_POST_started(2) by (metis prod.collapse)
  have "nodeDepths (sessionStore a') ''s1'' ''d1'' = nodeDepths (sessionStore demo_app) ''s1'' ''d1'' @ [(''n3'', 3)]"
    using POST_generate_depth [of date2 "''n3''" "''j3''" "''s1''" "demo_body None" demo_app] run
    by blast
  then show ?thesis
    using first run by (simp add: demo_app_facts)
qed

text \<open>
  C1, as the claim states it, fails: a body that carries \<open>depth\<close> decides the depth of
  the node. In a direction that holds two nodes, a request with \<open>depth = 1\<close> is accepted
  and creates a third node of depth 1, not 3.
\<close>

theorem POST_generate_depth_counterexample:
  "\<exists>a'. POST_generate date2 ''n3'' ''j3'' ''s1'' (demo_body (Some 1)) demo_app
           = (Started ''n3'' ''j3'' ''d1'' 1 Image, a')
        \<and> nodeDepths (sessionStore demo_app) ''s1'' ''d1'' = [(''n1'', 1), (''n2'', 2)]
        \<and> nodeDepths (sessionStore a') ''s1'' ''d1'' = [(''n1'', 1), (''n2'', 2), (''n3'', 1)]"
proof -
  obtain a' where run: "POST_generate date2 ''n3'' ''j3'' ''s1'' (demo_body (Some 1)) demo_app
               = (Started ''n3'' ''j3'' ''d1'' 1 Image, a')"
    using demo_POST_started(1) [of 1] by (metis prod.collapse one_le_numeral)
  then obtain a1 where enq: "enqueueGeneration date2 ''n3'' ''j3'' ''s1'' ''d1'' None Image 1 demo_app = Inr a1"
    and a': "a' = a1\<lparr>sessionStore := snd (setState date2 ''s1'' S_generating (sessionStore a1))\<rparr>"
    by (auto simp: POST_generate_def demo_body_def Let_def split: option.splits if_splits sum.splits)
  have "nodeDepths (sessionStore a') ''s1'' ''d1'' = [(''n1'', 1), (''n2'', 2), (''n3'', 1)]"
    by (simp add: a' nodeDepths_setState enqueueGeneration_depths [OF enq] demo_app_facts)
  then show ?thesis
    using run by (simp add: demo_app_facts)
qed

section \<open>The queue processes one job at a time\<close>

lemma stopTicker_frame [simp]:
  "sessionStore (stopTicker k a) = sessionStore a"
  "jobQueue (stopTicker k a) = jobQueue a"
  "isProcessing (stopTicker k a) = isProcessing a"
  "loops (stopTicker k a) = loops a"
  "finished (stopTicker k a) = finished a"
  "streamed (stopTicker k a) = streamed a"
  "errorListeners (stopTicker k a) = errorListeners a"
  "OPENAI_API_KEY (stopTicker k a) = OPENAI_API_KEY a"
  by (simp_all add: stopTicker_def)

lemma startProgressTicker_frame [simp]:
  "sessionStore (snd (startProgressTicker sid nid did p q a)) = sessionStore a"
  "jobQueue (snd (startProgressTicker sid nid did p q a)) = jobQueue a"
  "isProcessing (snd (startProgressTicker sid nid did p q a)) = isProcessing a"
  "loops (snd (startProgressTicker sid nid did p q a)) = loops a"
  "finished (snd (startProgressTicker sid nid did p q a)) = finished a"
  "streamed (snd (startProgressTicker sid nid did p q a)) = streamed a"
  "errorListeners (snd (startProgressTicker sid nid did p q a)) = errorListeners a"
  "OPENAI_API_KEY (snd (startProgressTicker sid nid did p q a)) = OPENAI_API_KEY a"
  by (simp_all add: startProgressTicker_def)

lemma tick_frame [simp]:
  "jobQueue (tick now k a) = jobQueue a"
  "isProcessing (tick now k a) = isProcessing a"
  "loops (tick now k a) = loops a"
  "finished (tick now k a) = finished a"
  "errorListeners (tick now k a) = errorListeners a"
  "OPENAI_API_KEY (tick now k a) = OPENAI_API_KEY a"
  by (simp_all add: tick_def Let_def)

lemma processJob_start_frame [simp]:
  "jobQueue (snd (processJob_start now job a)) = jobQueue a"
  "isProcessing (snd (processJob_start now job a)) = isProcessing a"
  "loops (snd (processJob_start now job a)) = loops a"
  "finished (snd (processJob_start now job a)) = finished a"
  "tickers (snd (processJob_start now job a)) = tickers a"
  "errorListeners (snd (processJob_start now job a)) = errorListeners a"
  "OPENAI_API_KEY (snd (processJob_start now job a)) = OPENAI_API_KEY a"
  by (simp_all add: processJob_start_def Let_def split: option.splits)

lemma processJob_start_not_Returned [simp]: "fst (processJob_start now job a) \<noteq> Returned"
  by (simp add: processJob_start_def Let_def split: option.splits)

lemma failJob_frame [simp]:
  "jobQueue (snd (failJob now job msg a)) = jobQueue a"
  "isProcessing (snd (failJob now job msg a)) = isProcessing a"
  "loops (snd (failJob now job msg a)) = loops a"
  "finished (snd (failJob now job msg a)) = finished a @ [job\<lparr>j_status := J_failed, j_error := Some msg\<rparr>]"
  "tickers (snd (failJob now job msg a)) = tickers a"
  "errorListeners (snd (failJob now job msg a)) = errorListeners a"
  "OPENAI_API_KEY (snd (failJob now job msg a)) = OPENAI_API_KEY a"
  by (simp_all add: failJob_def Let_def)

lemma completeJob_frame [simp]:
  "sessionStore (completeJob job a) = sessionStore a"
  "jobQueue (completeJob job a) = jobQueue a"
  "isProcessing (completeJob job a) = isProcessing a"
  "loops (completeJob job a) = loops a"
  "finished (completeJob job a) = finished a @ [job\<lparr>j_status := J_completed\<rparr>]"
  "tickers (completeJob job a) = tickers a"
  "streamed (completeJob job a) = streamed a"
  "errorListeners (completeJob job a) = errorListeners a"
  "OPENAI_API_KEY (completeJob job a) = OPENAI_API_KEY a"
  by (simp_all add: completeJob_def)

lemma imageCatch_frame [simp]:
  "jobQueue (snd (imageCatch k msg a)) = jobQueue a"
  "isProcessing (snd (imageCatch k msg a)) = isProcessing a"
  "loops (snd (imageCatch k msg a)) = loops a"
  "finished (snd (imageCatch k msg a)) = finished a"
  "errorListeners (snd (imageCatch k msg a)) = errorListeners a"
  by (simp_all add: imageCatch_def)

lemma videoCatch_frame [simp]:
  "jobQueue (snd (videoCatch k msg a)) = jobQueue a"
  "isProcessing (snd (videoCatch k msg a)) = isProcessing a"
  "loops (snd (videoCatch k msg a)) = loops a"
  "finished (snd (videoCatch k msg a)) = finished a"
  "errorListeners (snd (videoCatch k msg a)) = errorListeners a"
  by (simp_all add: videoCatch_def)

lemma videoPoll_frame [simp]:
  "jobQueue (snd (videoPoll pkg k n a)) = jobQueue a"
  "isProcessing (snd (videoPoll pkg k n a)) = isProcessing a"
  "loops (snd (videoPoll pkg k n a)) = loops a"
  "finished (snd (videoPoll pkg k n a)) = finished a"
  "errorListeners (snd (videoPoll pkg k n a)) = errorListeners a"
  by (simp_all add: videoPoll_def)

lemma processJob_complete_frame [simp]:
  "jobQueue (snd (processJob_complete now job pkg url a)) = jobQueue a"
  "isProcessing (snd (processJob_complete now job pkg url a)) = isProcessing a"
  "loops (snd (processJob_complete now job pkg url a)) = loops a"
  "finished (snd (processJob_complete now job pkg url a)) = finished a"
  "tickers (snd (processJob_complete now job pkg url a)) = tickers a"
  "errorListeners (snd (processJob_complete now job pkg url a)) = errorListeners a"
  by (simp_all add: processJob_complete_def Let_def)

lemma processJob_generate_frame [simp]:
  "jobQueue (snd (processJob_generate now job pkg a)) = jobQueue a"
  "isProcessing (snd (processJob_generate now job pkg a)) = isProcessing a"
  "loops (snd (processJob_generate now job pkg a)) = loops a"
  "finished (snd (processJob_generate now job pkg a)) = finished a"
  "errorListeners (snd (processJob_generate now job pkg a)) = errorListeners a"
  by (simp_all add: processJob_generate_def Let_def split: option.splits)

lemma processJob_resume_frame:
  assumes "processJob_resume now job p reply a = Some r"
  shows "jobQueue (snd r) = jobQueue a \<and> isProcessing (snd r) = isProcessing a
         \<and> loops (snd r) = loops a \<and> finished (snd r) = finished a
         \<and> errorListeners (snd r) = errorListeners a"
proof (cases p)
  case AwaitCompose
  then show ?thesis using assms
    by (cases reply) (auto simp: processJob_resume_def split: if_splits)
next
  case AwaitGate
  then show ?thesis using assms
    by (cases reply) (auto simp: processJob_resume_def split: if_splits)
next
  case (AwaitImgMkdir pkg ticker)
  then show ?thesis using assms
    by (cases reply) (auto simp: processJob_resume_def)
next
  case (AwaitImgApi pkg ticker)
  then show ?thesis using assms
    by (cases reply) (auto simp: processJob_resume_def Let_def split: option.splits if_splits)
next
  case (AwaitImgWrite pkg ticker)
  then show ?thesis using assms
    by (cases reply) (auto simp: processJob_resume_def)
next
  case (AwaitVidMkdir pkg ticker)
  then show ?thesis using assms
    by (cases reply) (auto simp: processJob_resume_def)
next
  case (AwaitVidCreate pkg ticker)
  then show ?thesis using assms
    by (cases reply) (auto simp: processJob_resume_def)
next
  case (AwaitVidSleep pkg ticker attempts)
  then show ?thesis using assms
    by (cases reply) (auto simp: processJob_resume_def)
next
  case (AwaitVidStatus pkg ticker attempts)
  then show ?thesis using assms
    by (cases reply) (auto simp: processJob_resume_def split: if_splits)
next
  case (AwaitVidDownload pkg ticker)
  then show ?thesis using assms
    by (cases reply) (auto simp: processJob_resume_def)
next
  case (AwaitVidWrite pkg ticker)
  then show ?thesis using assms
    by (cases reply) (auto simp: processJob_resume_def)
qed

lemma drain_loops [simp]: "loops (snd (drain now q a)) = loops a"
  by (induction q arbitrary: a) (auto simp: Let_def split: outcome.splits option.splits)

lemma drain_errorListeners [simp]: "errorListeners (snd (drain now q a)) = errorListeners a"
  by (induction q arbitrary: a) (auto simp: Let_def split: outcome.splits option.splits)

lemma drain_Cons_cases:
  obtains (suspended) p where
      "fst (processJob_start now (job\<lparr>j_status := J_processing\<rparr>) (a\<lparr>jobQueue := rest\<rparr>)) = Suspend p"
      "drain now (job # rest) a
         = (Some \<lparr>l_job = job\<lparr>j_status := J_processing\<rparr>, l_pc = p\<rparr>,
            snd (processJob_start now (job\<lparr>j_status := J_processing\<rparr>) (a\<lparr>jobQueue := rest\<rparr>)))"
  | (died) message exception where
      "fst (processJob_start now (job\<lparr>j_status := J_processing\<rparr>) (a\<lparr>jobQueue := rest\<rparr>)) = Thrown message"
      "fst (failJob now (job\<lparr>j_status := J_processing\<rparr>) message
              (snd (processJob_start now (job\<lparr>j_status := J_processing\<rparr>) (a\<lparr>jobQueue := rest\<rparr>))))
         = Some exception"
      "drain now (job # rest) a
         = (None, snd (failJob now (job\<lparr>j_status := J_processing\<rparr>) message
              (snd (processJob_start now (job\<lparr>j_status := J_processing\<rparr>) (a\<lparr>jobQueue := rest\<rparr>)))))"
  | (next_job) message where
      "fst (processJob_start now (job\<lparr>j_status := J_processing\<rparr>) (a\<lparr>jobQueue := rest\<rparr>)) = Thrown message"
      "fst (failJob now (job\<lparr>j_status := J_processing\<rparr>) message
              (snd (processJob_start now (job\<lparr>j_status := J_processing\<rparr>) (a\<lparr>jobQueue := rest\<rparr>))))
         = None"
      "drain now (job # rest) a
         = drain now rest (snd (failJob now (job\<lparr>j_status := J_processing\<rparr>) message
              (snd (processJob_start now (job\<lparr>j_status := J_processing\<rparr>) (a\<lparr>jobQueue := rest\<rparr>)))))"
proof (cases "fst (processJob_start now (job\<lparr>j_status := J_processing\<rparr>) (a\<lparr>jobQueue := rest\<rparr>))")
  case (Suspend p)
  then show ?thesis using suspended by (simp add: Let_def)
next
  case Returned
  then show ?thesis by simp
next
  case (Thrown message)
  show ?thesis
  proof (cases "fst (failJob now (job\<lparr>j_status := J_processing\<rparr>) message
              (snd (processJob_start now (job\<lparr>j_status := J_processing\<rparr>) (a\<lparr>jobQueue := rest\<rparr>))))")
    case None
    then show ?thesis using Thrown next_job by (simp add: Let_def)
  next
    case (Some exception)
    then show ?thesis using Thrown died by (simp add: Let_def)
  qed
qed

lemma drain_order:
  "map j_id (finished (snd (drain now q a)))
     @ (case fst (drain now q a) of Some l \<Rightarrow> [j_id (l_job l)] | None \<Rightarrow> [])
     @ map j_id (jobQueue (snd (drain now q a)))
   = map j_id (finished a) @ map j_id q"
proof (induction q arbitrary: a)
  case Nil
  then show ?case by simp
next
  case (Cons job rest)
  show ?case
  proof (cases rule: drain_Cons_cases [where now=now and job=job and a=a and rest=rest])
    case (suspended p)
    then show ?thesis by simp
  next
    case (died message exception)
    then show ?thesis by simp
  next
    case (next_job message)
    then show ?thesis by (simp add: Cons.IH)
  qed
qed

lemma drain_finished:
  "list_all doneStatus (finished a) \<Longrightarrow> list_all doneStatus (finished (snd (drain now q a)))"
  by (induction q arbitrary: a)
     (auto simp: Let_def doneStatus_def split: outcome.splits option.splits)

lemma drain_queue:
  "list_all P q \<Longrightarrow> list_all P (jobQueue (snd (drain now q a)))"
  by (induction q arbitrary: a) (auto simp: Let_def split: outcome.splits option.splits)

lemma drain_loop:
  "fst (drain now q a) = Some l \<Longrightarrow>
     j_status (l_job l) = J_processing \<and> isProcessing (snd (drain now q a)) = isProcessing a"
  by (induction q arbitrary: a) (auto simp: Let_def split: outcome.splits option.splits)

lemma drain_ended:
  "isProcessing a \<Longrightarrow> isProcessing (snd (drain now q a)) \<or> jobQueue (snd (drain now q a)) = []"
  by (induction q arbitrary: a) (auto simp: Let_def split: outcome.splits option.splits)


declare drain.simps [simp del]

lemma queueInv_idle: "queueInv (idle st listeners apiKey)"
  by (simp add: queueInv_def idle_def)

lemma queueInv_after_drain:
  assumes "isProcessing a" "list_all (\<lambda>j. j_status j = J_queued) q"
    "list_all doneStatus (finished a)"
  shows "queueInv ((snd (drain now q a))\<lparr>loops :=
            (case fst (drain now q a) of Some l \<Rightarrow> [l] | None \<Rightarrow> [])\<rparr>)"
proof (cases "fst (drain now q a)")
  case None
  then show ?thesis
    using assms drain_ended [OF assms(1), of now q] drain_queue [OF assms(2), of now a]
      drain_finished [OF assms(3), of now q]
    by (auto simp: queueInv_def)
next
  case (Some l)
  then show ?thesis
    using assms drain_loop [OF Some] drain_queue [OF assms(2), of now a]
      drain_finished [OF assms(3), of now q]
    by (auto simp: queueInv_def)
qed

lemma allJobs_after_drain:
  "map j_id (allJobs ((snd (drain now q a))\<lparr>loops :=
            (case fst (drain now q a) of Some l \<Rightarrow> [l] | None \<Rightarrow> [])\<rparr>))
         = map j_id (finished a) @ map j_id q"
  using drain_order [of now q a]
  by (cases "fst (drain now q a)") (simp_all add: allJobs_def)

lemma queueInvD:
  assumes "queueInv a"
  shows "length (loops a) \<le> 1" "loops a = [] \<or> isProcessing a" "isProcessing a \<or> jobQueue a = []"
    "list_all (\<lambda>l. j_status (l_job l) = J_processing) (loops a)"
    "list_all (\<lambda>j. j_status j = J_queued) (jobQueue a)"
    "list_all doneStatus (finished a)"
  using assms by (simp_all add: queueInv_def)

lemma enqueueGeneration_queue:
  assumes "queueInv a"
    and "enqueueGeneration now nodeId jobId sessionId directionId parent media depth a = Inr a'"
  shows "queueInv a' \<and> map j_id (allJobs a') = map j_id (allJobs a) @ [jobId]"
proof -
  obtain session direction where
    s: "get (sessionStore a) sessionId = Some session"
    and d: "find (\<lambda>d. d_id d = directionId) (s_directions session) = Some direction"
    using assms(2) by (auto simp: enqueueGeneration_def split: option.splits)
  define job where "job = \<lparr>j_id = jobId, j_sessionId = sessionId, j_directionId = directionId,
                           j_nodeId = nodeId, j_parentNodeId = parent,
                           j_mediaType = media, j_depth = depth, j_status = J_queued,
                           j_error = None\<rparr>"
  define node where "node = \<lparr>n_id = nodeId, n_directionId = directionId, n_depth = depth,
                            n_status = N_queued, n_mediaType = media,
                            n_model = (if media = Image then Gpt_image_1_5 else Sora_2),
                            n_prompt = None, n_promptMeta = None, n_negative = [],
                            n_explanationShort = None, n_outputUrl = None, n_thumbnailUrl = None,
                            n_progress = 0, n_streamingContent = None, n_error = None,
                            n_isPinned = False, n_parentNodeId = parent,
                            n_salienceDelta = [], n_createdAt = now, n_completedAt = None\<rparr>"
  define a2 where "a2 = emitNodeCreated now sessionId nodeId directionId depth
                          (a\<lparr>sessionStore := snd (addNode now sessionId directionId node (sessionStore a))\<rparr>)"
  define a3 where "a3 = a2\<lparr>jobQueue := jobQueue a2 @ [job]\<rparr>"
  have a3: "jobQueue a3 = jobQueue a @ [job]" "isProcessing a3 = isProcessing a"
      "loops a3 = loops a" "finished a3 = finished a"
    by (simp_all add: a3_def a2_def)
  have "enqueueGeneration now nodeId jobId sessionId directionId parent media depth a
          = Inr (if \<not> isProcessing a3 then processQueue now a3 else a3)"
    unfolding enqueueGeneration_def a3_def a2_def job_def node_def
    by (simp only: s d option.case Let_def)
  then have a': "a' = (if \<not> isProcessing a3 then processQueue now a3 else a3)"
    using assms(2) by simp
  note inv = queueInvD [OF assms(1)]
  show ?thesis
  proof (cases "isProcessing a")
    case True
    then have "a' = a3" using a' a3 by simp
    then show ?thesis
      using inv a3 True by (simp add: queueInv_def allJobs_def job_def)
  next
    case False
    then have empty: "loops a = []" "jobQueue a = []"
      using inv by auto
    let ?b = "a3\<lparr>isProcessing := True\<rparr>"
    let ?d = "drain now [job] ?b"
    have nol: "loops (snd ?d) = []" using a3 empty by simp
    have shape: "a' = (snd ?d)\<lparr>loops := (case fst ?d of Some l \<Rightarrow> [l] | None \<Rightarrow> [])\<rparr>"
    proof (cases "fst ?d")
      case None
      have "(snd ?d)\<lparr>loops := []\<rparr> = snd ?d" using nol by simp
      then show ?thesis
        using a' a3 False empty None by (simp add: processQueue_def Let_def)
    next
      case (Some l)
      then show ?thesis
        using a' a3 False empty nol by (simp add: processQueue_def Let_def)
    qed
    have b: "isProcessing ?b" "list_all (\<lambda>j. j_status j = J_queued) [job]"
      "list_all doneStatus (finished ?b)"
      using a3 empty inv by (simp_all add: job_def)
    have "queueInv a'"
      unfolding shape by (rule queueInv_after_drain [OF b])
    moreover have "map j_id (allJobs a') = map j_id (allJobs a) @ [jobId]"
      unfolding shape using allJobs_after_drain [of now "[job]" ?b] a3 empty
      by (simp add: allJobs_def job_def)
    ultimately show ?thesis by simp
  qed
qed

lemma resume_queue:
  assumes "queueInv a"
  shows "queueInv (resume now i reply a) \<and> map j_id (allJobs (resume now i reply a)) = map j_id (allJobs a)"
proof (cases "i < length (loops a)")
  case False
  then show ?thesis using assms by (simp add: resume_def)
next
  case True
  note inv = queueInvD [OF assms]
  from True inv(1) obtain l where l: "loops a = [l]" and i: "i = 0"
    by (cases "loops a") auto
  have busy: "isProcessing a" using inv(2) l by simp
  have lj: "j_status (l_job l) = J_processing" using inv(4) l by simp
  show ?thesis
  proof (cases "processJob_resume now (l_job l) (l_pc l) reply a")
    case None
    then show ?thesis using assms l i by (simp add: resume_def)
  next
    case (Some r)
    obtain out a1 where r: "r = (out, a1)" by (cases r)
    have fr: "jobQueue a1 = jobQueue a" "isProcessing a1 = isProcessing a" "loops a1 = loops a"
      "finished a1 = finished a"
      using processJob_resume_frame [OF Some] r by simp_all
    show ?thesis
    proof (cases out)
      case (Suspend p)
      then have res: "resume now i reply a = a1\<lparr>loops := [\<lparr>l_job = l_job l, l_pc = p\<rparr>]\<rparr>"
        using Some r l i fr by (simp add: resume_def)
      show ?thesis
        unfolding res using inv fr l lj busy by (simp add: queueInv_def allJobs_def)
    next
      case Returned
      let ?b = "completeJob (l_job l) a1"
      let ?d = "drain now (jobQueue a1) ?b"
      have res0: "resume now i reply a = continueLoop 0 ?d"
        using Some r l i Returned by (simp add: resume_def)
      have res: "resume now i reply a
                   = (snd ?d)\<lparr>loops := (case fst ?d of Some l' \<Rightarrow> [l'] | None \<Rightarrow> [])\<rparr>"
        unfolding res0 using fr l
        by (cases "fst ?d") (simp_all add: continueLoop_def remove_at_def)
      have b: "isProcessing ?b" "list_all (\<lambda>j. j_status j = J_queued) (jobQueue a1)"
        "list_all doneStatus (finished ?b)"
        using fr busy inv by (simp_all add: doneStatus_def)
      have "queueInv (resume now i reply a)"
        unfolding res by (rule queueInv_after_drain [OF b])
      moreover have "map j_id (allJobs (resume now i reply a)) = map j_id (allJobs a)"
        unfolding res using allJobs_after_drain [of now "jobQueue a1" ?b] fr l
        by (simp add: allJobs_def)
      ultimately show ?thesis by simp
    next
      case (Thrown message)
      let ?c = "failJob now (l_job l) message a1"
      show ?thesis
      proof (cases "fst ?c")
        case (Some exception)
        then have res: "resume now i reply a = (snd ?c)\<lparr>loops := []\<rparr>"
          using \<open>processJob_resume now (l_job l) (l_pc l) reply a = Some r\<close> r l i Thrown fr
          by (simp add: resume_def Let_def remove_at_def)
        show ?thesis
          unfolding res using inv fr l busy by (simp add: queueInv_def allJobs_def doneStatus_def)
      next
        case None
        let ?d = "drain now (jobQueue (snd ?c)) (snd ?c)"
        have res0: "resume now i reply a = continueLoop 0 ?d"
          using \<open>processJob_resume now (l_job l) (l_pc l) reply a = Some r\<close> r l i Thrown None
          by (simp add: resume_def Let_def)
        have res: "resume now i reply a
                   = (snd ?d)\<lparr>loops := (case fst ?d of Some l' \<Rightarrow> [l'] | None \<Rightarrow> [])\<rparr>"
          unfolding res0 using fr l
          by (cases "fst ?d") (simp_all add: continueLoop_def remove_at_def)
        have b: "isProcessing (snd ?c)" "list_all (\<lambda>j. j_status j = J_queued) (jobQueue (snd ?c))"
          "list_all doneStatus (finished (snd ?c))"
          using fr busy inv by (simp_all add: doneStatus_def)
        have "queueInv (resume now i reply a)"
          unfolding res by (rule queueInv_after_drain [OF b])
        moreover have "map j_id (allJobs (resume now i reply a)) = map j_id (allJobs a)"
          unfolding res using allJobs_after_drain [of now "jobQueue (snd ?c)" "snd ?c"] fr l
          by (simp add: allJobs_def)
        ultimately show ?thesis by simp
      qed
    qed
  qed
qed

lemma tick_queue:
  assumes "queueInv a"
  shows "queueInv (tick now k a) \<and> map j_id (allJobs (tick now k a)) = map j_id (allJobs a)"
  using assms by (simp add: queueInv_def allJobs_def)

lemma step_queue:
  assumes "queueInv a"
  shows "queueInv (step act a) \<and> map j_id (allJobs (step act a)) = map j_id (allJobs a) @ accepted [act] a"
proof (cases act)
  case (Enqueue now nodeId jobId sessionId directionId parent media depth)
  show ?thesis
  proof (cases "enqueueGeneration now nodeId jobId sessionId directionId parent media depth a")
    case (Inl message)
    then show ?thesis using assms Enqueue by simp
  next
    case (Inr a')
    then show ?thesis using enqueueGeneration_queue [OF assms Inr] Enqueue by simp
  qed
next
  case (Resume now i reply)
  then show ?thesis using resume_queue [OF assms] by simp
next
  case (Tick now k)
  then show ?thesis using tick_queue [OF assms] by simp
qed

lemma accepted_Cons: "accepted (act # acts) a = accepted [act] a @ accepted acts (step act a)"
  by simp

lemma run_queue:
  assumes "queueInv a"
  shows "queueInv (run acts a) \<and> map j_id (allJobs (run acts a)) = map j_id (allJobs a) @ accepted acts a"
  using assms
proof (induction acts arbitrary: a)
  case Nil
  then show ?case by (simp add: run_def)
next
  case (Cons act acts)
  have st: "queueInv (step act a)"
    "map j_id (allJobs (step act a)) = map j_id (allJobs a) @ accepted [act] a"
    using step_queue [OF Cons.prems] by simp_all
  have "run (act # acts) a = run acts (step act a)"
    by (simp add: run_def)
  then show ?case
    using Cons.IH [OF st(1)] st(2) accepted_Cons [of act acts a] by simp
qed

text \<open>
  C2. Whatever calls of \<open>enqueueGeneration\<close>, settled awaits and interval firings
  happen, in whatever order: at most one job object has status \<open>processing\<close>, at most
  one invocation of \<open>processQueue\<close> is alive, and the jobs have left the queue in the
  order in which they were enqueued (the job objects, oldest first, are the accepted
  calls in call order).
\<close>

theorem single_flight:
  "length (filter (\<lambda>j. j_status j = J_processing) (allJobs (run actions (idle st listeners apiKey)))) \<le> 1
   \<and> length (loops (run actions (idle st listeners apiKey))) \<le> 1
   \<and> map j_id (allJobs (run actions (idle st listeners apiKey))) = accepted actions (idle st listeners apiKey)"
proof -
  let ?a = "run actions (idle st listeners apiKey)"
  have inv: "queueInv ?a"
    and order: "map j_id (allJobs ?a) = map j_id (allJobs (idle st listeners apiKey)) @ accepted actions (idle st listeners apiKey)"
    using run_queue [OF queueInv_idle, of actions st listeners apiKey] by simp_all
  note q = queueInvD [OF inv]
  have f: "filter (\<lambda>j. j_status j = J_processing) (finished ?a) = []"
    using q(6) by (auto simp: filter_empty_conv list_all_iff doneStatus_def)
  have w: "filter (\<lambda>j. j_status j = J_processing) (jobQueue ?a) = []"
    using q(5) by (auto simp: filter_empty_conv list_all_iff)
  have "length (filter (\<lambda>j. j_status j = J_processing) (allJobs ?a)) \<le> length (loops ?a)"
    by (simp add: allJobs_def f w)
  then show ?thesis
    using q(1) order by (simp add: allJobs_def idle_def)
qed


theorem single_flight_witness:
  "length (filter (\<lambda>j. j_status j = J_processing) (allJobs (run two_enqueues (idle one_store [] None)))) \<le> 1
   \<and> map j_id (allJobs (run two_enqueues (idle one_store [] None))) = [''j1'', ''j2'']
   \<and> map j_status (allJobs (run two_enqueues (idle one_store [] None))) = [J_processing, J_queued]"
proof -
  have ids: "accepted two_enqueues (idle one_store [] None) = [''j1'', ''j2'']"
    by code_simp
  have st: "map j_status (allJobs (run two_enqueues (idle one_store [] None))) = [J_processing, J_queued]"
    by code_simp
  show ?thesis
    using single_flight [of two_enqueues one_store "[]" None] ids st by simp
qed

section \<open>A failing job\<close>

text \<open>
  Once \<open>isProcessing\<close> is set and no loop is alive, nothing clears the flag and no job
  is ever taken from the queue again: \<open>enqueueGeneration\<close> only pushes, and there is no
  loop to resume.
\<close>

lemma halted_step:
  assumes "halted a"
  shows "halted (step act a) \<and> finished (step act a) = finished a"
proof (cases act)
  case (Enqueue now nodeId jobId sessionId directionId parent media depth)
  then show ?thesis
    using assms
    by (auto simp: halted_def enqueueGeneration_def Let_def split: option.splits)
next
  case (Resume now i reply)
  then show ?thesis using assms by (simp add: halted_def resume_def)
next
  case (Tick now k)
  then show ?thesis using assms by (simp add: halted_def)
qed

lemma halted_run:
  assumes "halted a"
  shows "halted (run acts a) \<and> finished (run acts a) = finished a"
  using assms
proof (induction acts arbitrary: a)
  case Nil
  then show ?case by (simp add: run_def)
next
  case (Cons act acts)
  have "run (act # acts) a = run acts (step act a)"
    by (simp add: run_def)
  then show ?case
    using Cons.IH [of "step act a"] halted_step [OF Cons.prems, of act] by simp
qed

lemma failing_run_state:
  "isProcessing (failing_run [])" "loops (failing_run []) = []"
  "map j_id (jobQueue (failing_run [])) = [''j2'']"
  "map (\<lambda>j. (j_id j, j_status j, j_error j)) (finished (failing_run []))
       = [(''j1'', J_failed, Some ''Prompt composition failed: too vague'')]"
  "map eventProgress (streamed (failing_run []))
       = [(Ev_node_created, None), (Ev_generation_progress, Some 5),
          (Ev_generation_progress, Some 15), (Ev_node_created, None)]"
  "map_option (\<lambda>n. (n_status n, n_error n)) (getNode (sessionStore (failing_run [])) ''s1'' ''n1'')
       = Some (N_error, Some ''Prompt composition failed: too vague'')"
  "map_option n_status (getNode (sessionStore (failing_run [])) ''s1'' ''n2'') = Some N_queued"
  by code_simp+

text \<open>
  C5 at a failing input. Two jobs are enqueued on a session whose emitter has no listener
  for \<open>error\<close> (the repository registers listeners for \<open>*\<close> only), and the composer
  asks for a revision of the first. The node of the first job is set to \<open>error\<close> with
  the message. Then \<open>emitError\<close> throws inside the \<open>catch\<close> block of
  \<open>processQueue\<close>: no \<open>error\<close> event reaches the stream, the loop ends with
  \<open>isProcessing\<close> still set, the second job stays in the queue with its node
  \<open>queued\<close>, and whatever happens later, no job is processed any more.
\<close>

theorem failure_halts_queue:
  "map_option (\<lambda>n. (n_status n, n_error n)) (getNode (sessionStore (failing_run [])) ''s1'' ''n1'')
       = Some (N_error, Some ''Prompt composition failed: too vague'')
   \<and> map eventProgress (streamed (failing_run []))
       = [(Ev_node_created, None), (Ev_generation_progress, Some 5),
          (Ev_generation_progress, Some 15), (Ev_node_created, None)]
   \<and> isProcessing (failing_run []) \<and> loops (failing_run []) = []
   \<and> map j_id (jobQueue (failing_run [])) = [''j2'']
   \<and> map_option n_status (getNode (sessionStore (failing_run [])) ''s1'' ''n2'') = Some N_queued
   \<and> (\<forall>later. loops (run later (failing_run [])) = []
          \<and> map j_id (finished (run later (failing_run []))) = [''j1''])"
proof -
  have h: "halted (failing_run [])"
    using failing_run_state(1,2) by (simp add: halted_def)
  have f: "map j_id (finished (failing_run [])) = [''j1'']"
    using failing_run_state(4) by (cases "finished (failing_run [])") auto
  have "\<forall>later. loops (run later (failing_run [])) = []
          \<and> map j_id (finished (run later (failing_run []))) = [''j1'']"
    using halted_run [OF h] f by (simp add: halted_def)
  then show ?thesis
    using failing_run_state by simp
qed

text \<open>
  The same input on a session whose emitter does have a listener for \<open>error\<close>: the event
  is streamed and the loop goes on with the second job.
\<close>

lemma queue_continues_with_error_listener:
  "map eventProgress (streamed (failing_run [''s1'']))
       = [(Ev_node_created, None), (Ev_generation_progress, Some 5),
          (Ev_generation_progress, Some 15), (Ev_node_created, None), (Ev_error, None),
          (Ev_generation_progress, Some 5), (Ev_generation_progress, Some 15)]"
  "map (\<lambda>l. (j_id (l_job l), l_pc l)) (loops (failing_run [''s1''])) = [(''j2'', AwaitCompose)]"
  "jobQueue (failing_run [''s1'']) = []"
  by code_simp+

section \<open>The events of one node\<close>

text \<open>
  C3 at failing inputs. An image job that succeeds, with one firing of the ticker after
  the call of the image service has started: the progress values streamed for the node
  are 5, 15, 30, 40, 50, 41, 85, 95. A video job with no API key configured:
  \<open>generateVideo\<close> starts the ticker and throws before its \<open>try\<close>, so the interval is
  never cleared and a progress event follows the \<open>error\<close> event (with a listener for
  \<open>error\<close>), or no final event is streamed at all (without one).
\<close>

theorem progress_events_out_of_order:
  "map eventProgress (streamed image_run)
     = [(Ev_node_created, None), (Ev_generation_progress, Some 5),
        (Ev_generation_progress, Some 15), (Ev_generation_progress, Some 30),
        (Ev_generation_progress, Some 40), (Ev_generation_progress, Some 50),
        (Ev_generation_progress, Some 41), (Ev_generation_progress, Some 85),
        (Ev_generation_progress, Some 95), (Ev_generation_complete, None)]
   \<and> map eventProgress (streamed (video_run [''s1'']))
     = [(Ev_node_created, None), (Ev_generation_progress, Some 5),
        (Ev_generation_progress, Some 15), (Ev_generation_progress, Some 30),
        (Ev_generation_progress, Some 40), (Ev_error, None),
        (Ev_generation_progress, Some 41)]
   \<and> map eventProgress (streamed (video_run []))
     = [(Ev_node_created, None), (Ev_generation_progress, Some 5),
        (Ev_generation_progress, Some 15), (Ev_generation_progress, Some 30),
        (Ev_generation_progress, Some 40), (Ev_generation_progress, Some 41)]"
  by code_simp

end
